theory Spec2Isabelle
  imports Complex_Main "HOL-Library.Word" "HOL-Library.Signed_Division"
begin

section \<open>Data model of SoundManagerBase\<close>

text \<open>
  The embedding follows \<open>src/Software/src/SoundManagerBase.cpp\<close>. The class header, Qt and
  the capture backends are not part of the source file, so the types of the members are
  taken from their use in the code:
  \<^item> \<open>QRgb\<close> is Qt's 32-bit \<open>unsigned int\<close>;
  \<^item> \<open>int\<close> members and locals are mathematical integers: every value the code computes
    with them stays far inside 32 bits except the frame counter, which only enters through
    the test \<open>m_frames % 5 == 0\<close>;
  \<^item> \<open>size_t\<close> indices are natural numbers;
  \<^item> the magnitudes, of type \<open>float\<close>, are real numbers; the code only compares them.
    What the floating-point arithmetic of the platform makes of \<open>sqrt(peak) * specHeight - 4\<close>
    and of the colour interpolation, converted to \<open>int\<close>, is not fixed by the source
    (rounding, overflow of the conversion): the two results are the parameters \<open>scaleToInt\<close>
    and \<open>mixToInt\<close> of the environment, and every general theorem holds for all of them.
    The power of 2 that gives a bin boundary is taken as the spec states it, in exact
    arithmetic, truncated towards zero. The division \<open>i*9.0 / (m_colors.size() - 1)\<close> of
    the single channel case is \<open>0.0 / 0\<close>, a NaN, and its conversion to \<open>size_t\<close> is
    undefined in C++: the value it yields is the parameter \<open>nanToSize\<close> of the environment.
\<close>

type_synonym QRgb = "32 word"

record QColor =
  red :: int
  green :: int
  blue :: int

text \<open>
  Modelled from the spec: the class \<open>LiquidColorGenerator\<close> is declared outside the source
  file. The spec gives it a progression state of its own and the operations current colour
  (a pure read), set speed, start, stop and reset; what reset does to the progression state
  is not said, so it is the parameter \<open>generatorReset\<close> of the environment.
\<close>

record LiquidColorGenerator =
  running :: bool
  speed :: int
  current :: QColor

definition generatorStart :: "LiquidColorGenerator \<Rightarrow> LiquidColorGenerator" where
  "generatorStart g = g\<lparr>running := True\<rparr>"

definition generatorStop :: "LiquidColorGenerator \<Rightarrow> LiquidColorGenerator" where
  "generatorStop g = g\<lparr>running := False\<rparr>"

definition generatorSetSpeed :: "int \<Rightarrow> LiquidColorGenerator \<Rightarrow> LiquidColorGenerator" where
  "generatorSetSpeed v g = g\<lparr>speed := v\<rparr>"

record SoundManager =
  m_isEnabled :: bool
  m_isInited :: bool
  m_device :: int
  m_minColor :: QColor
  m_maxColor :: QColor
  m_isLiquidMode :: bool
  m_isSendDataOnlyIfColorsChanged :: bool
  m_generator :: LiquidColorGenerator
  m_colors :: "QRgb list"
  m_peaks :: "int list"
  m_frames :: int
  m_fft :: "real list"

type_synonym SoundManagerDeviceInfo = "string \<times> int"

text \<open>The Qt signals of the class; an operation returns the signals it emitted, in order.\<close>

datatype Signal =
  UpdateLedsColors "QRgb list"
| DeviceList "SoundManagerDeviceInfo list" int

text \<open>
  What the code reaches outside the file: \<open>Settings::isLedEnabled\<close>, the virtual methods
  \<open>init\<close> and \<open>populateDeviceList\<close> of the platform classes (the latter fills the two
  variables passed by reference), and the parameters described above:
  \<open>scaleToInt peak\<close> is \<open>(int)(sqrt(peak) * specHeight - 4)\<close> and \<open>mixToInt f t val\<close> is
  \<open>(int)(f + (t - f) * (val / (double)specHeight))\<close>, both as the platform computes them.
\<close>

record Env =
  isLedEnabled :: "nat \<Rightarrow> bool"
  nanToSize :: nat
  scaleToInt :: "real \<Rightarrow> int"
  mixToInt :: "int \<Rightarrow> int \<Rightarrow> int \<Rightarrow> int"
  generatorReset :: "LiquidColorGenerator \<Rightarrow> LiquidColorGenerator"
  init :: "SoundManager \<Rightarrow> bool \<times> SoundManager"
  populateDeviceList ::
    "SoundManager \<Rightarrow> SoundManagerDeviceInfo list \<Rightarrow> int \<Rightarrow> SoundManagerDeviceInfo list \<times> int"

text \<open>
  Reading \<open>m_fft\<close> or \<open>m_peaks\<close> past the end and dividing by zero are undefined behaviour
  in the source; in the model they end the call with an error.
\<close>

datatype error = OutOfBounds | DivisionByZero

section \<open>Numeric helpers\<close>

definition fftSize :: nat where
  "fftSize = 1024"

definition specHeight :: int where
  "specHeight = 1000"

text \<open>Conversion of a floating-point value to an integer type: truncation towards zero.\<close>

definition toInt :: "real \<Rightarrow> int" where
  "toInt x = (if x < 0 then - \<lfloor>- x\<rfloor> else \<lfloor>x\<rfloor>)"

text \<open>\<open>size_t b1 = pow(2, i*9.0 / (m_colors.size() - 1))\<close>, for \<open>n\<close> channels.\<close>

definition powBound :: "nat \<Rightarrow> nat \<Rightarrow> nat \<Rightarrow> nat" where
  "powBound nan n i =
     (if n = 1 then nan else nat (toInt (2 powr (real i * 9 / real (n - 1)))))"

section \<open>The bucketizing loop of applyFft\<close>

text \<open>
  The inner loop \<open>for (; b0<b1; b0++) if (peak<m_fft[1 + b0]) peak = m_fft[1 + b0];\<close>.
  It returns the peak and the final \<open>b0\<close>.
\<close>

function scanBins :: "real list \<Rightarrow> nat \<Rightarrow> nat \<Rightarrow> real \<Rightarrow> error + (real \<times> nat)" where
  "scanBins fft b0 b1 peak =
     (if b0 < b1 then
        (if 1 + b0 < length fft then
           scanBins fft (b0 + 1) b1 (if peak < fft ! (1 + b0) then fft ! (1 + b0) else peak)
         else Inl OutOfBounds)
      else Inr (peak, b0))"
  by pat_completeness auto
termination
  by (relation "measure (\<lambda>(fft, b0, b1, peak). b1 - b0)") auto

declare scanBins.simps [simp del]

text \<open>Lines 193 and 194: the power of channel \<open>i\<close> and the cap at \<open>F - 1\<close>.\<close>

definition cappedBound :: "nat \<Rightarrow> nat \<Rightarrow> nat \<Rightarrow> nat \<Rightarrow> nat" where
  "cappedBound nan F n i =
     (let b1 = powBound nan n i
      in if b1 > F - 1 then F - 1 else b1)"

text \<open>Line 195 after them: the upper boundary of channel \<open>i\<close> holds at least one bin.\<close>

definition upperBound :: "nat \<Rightarrow> nat \<Rightarrow> nat \<Rightarrow> nat \<Rightarrow> nat \<Rightarrow> nat" where
  "upperBound nan F n i b0 =
     (let b1 = cappedBound nan F n i
      in if b1 \<le> b0 then b0 + 1 else b1)"

text \<open>Lines 192 to 197 for one channel: the raw peak of the channel and the next \<open>b0\<close>.\<close>

definition bucket ::
  "nat \<Rightarrow> real list \<Rightarrow> nat \<Rightarrow> nat \<Rightarrow> nat \<Rightarrow> nat \<Rightarrow> error + (real \<times> nat)" where
  "bucket nan fft F n i b0 = scanBins fft b0 (upperBound nan F n i b0) 0"

text \<open>
  The bucketizing part of the loop over the channels on its own: for each channel the
  triple of its first offset \<open>b0\<close>, its exclusive last offset \<open>b1\<close> and its raw peak.
  Offset \<open>b\<close> stands for bin \<open>1 + b\<close>.
\<close>

function bucketize ::
  "nat \<Rightarrow> real list \<Rightarrow> nat \<Rightarrow> nat \<Rightarrow> nat \<Rightarrow> nat \<Rightarrow> error + (nat \<times> nat \<times> real) list" where
  "bucketize nan fft F n i b0 =
     (if i < n then
        (case bucket nan fft F n i b0 of
           Inl e \<Rightarrow> Inl e
         | Inr (peak, b1) \<Rightarrow>
             (case bucketize nan fft F n (i + 1) b1 of
                Inl e \<Rightarrow> Inl e
              | Inr rs \<Rightarrow> Inr ((b0, b1, peak) # rs)))
      else Inr [])"
  by pat_completeness auto
termination
  by (relation "measure (\<lambda>(nan, fft, F, n, i, b0). n - i)") auto

declare bucketize.simps [simp del]

section \<open>Peak tracking\<close>

text \<open>
  \<open>int val = sqrt(peak) * specHeight - 4\<close> and the two caps.
\<close>

definition scaleVal :: "Env \<Rightarrow> real \<Rightarrow> int" where
  "scaleVal env peak =
     (let val = scaleToInt env peak;
          val = (if val > specHeight then specHeight else val);
          val = (if val < 0 then 0 else val)
      in val)"

text \<open>Lines 202 to 204: decay on every fifth frame, floor at zero, raise to \<open>val\<close>.\<close>

definition updatePeak :: "int \<Rightarrow> int \<Rightarrow> int \<Rightarrow> int" where
  "updatePeak frames p val =
     (let p = (if frames mod 5 = 0 then p - 1 else p);
          p = (if p < 0 then 0 else p);
          p = (if val > p then val else p)
      in p)"

text \<open>
  Lines 202 to 206: the new peak and the value after the renormalization. The division is
  C's integer division, which truncates towards zero.
\<close>

definition trackPeak :: "int \<Rightarrow> int \<Rightarrow> int \<Rightarrow> error + (int \<times> int)" where
  "trackPeak frames p val =
     (let p = updatePeak frames p val in
      if val < p - 5 then
        (if p = 0 then Inl DivisionByZero else Inr (p, (val * specHeight) sdiv p))
      else Inr (p, val))"

section \<open>Colour mapping\<close>

text \<open>
  Qt's \<open>QColor::setRed\<close>, \<open>setGreen\<close> and \<open>setBlue\<close> bring an argument outside 0..255 back
  into that range; \<open>QColor::rgb\<close> packs the three components under an opaque alpha
  (\<open>0xffRRGGBB\<close>).
\<close>

definition setComponent :: "int \<Rightarrow> int" where
  "setComponent v = max 0 (min v 255)"

definition rgb :: "QColor \<Rightarrow> QRgb" where
  "rgb c = word_of_int (255 * 16777216 + (red c mod 256) * 65536
              + (green c mod 256) * 256 + blue c mod 256)"

text \<open>
  Lines 209 to 214: the colour of an enabled channel for the value \<open>val\<close>. Each component
  is \<open>from.red() + (to.red() - from.red()) * (val / (double)specHeight)\<close>, converted to the
  \<open>int\<close> argument of \<open>QColor::setRed\<close>.
\<close>

definition channelColor :: "Env \<Rightarrow> SoundManager \<Rightarrow> int \<Rightarrow> QRgb" where
  "channelColor env s val =
     (let cfrom = (if m_isLiquidMode s then \<lparr>red = 0, green = 0, blue = 0\<rparr> else m_minColor s);
          cto = (if m_isLiquidMode s then current (m_generator s) else m_maxColor s)
      in rgb \<lparr>red = setComponent (mixToInt env (red cfrom) (red cto) val),
              green = setComponent (mixToInt env (green cfrom) (green cto) val),
              blue = setComponent (mixToInt env (blue cfrom) (blue cto) val)\<rparr>)"

section \<open>applyFft\<close>

text \<open>
  The body of the loop for channel \<open>i\<close>: it returns the next \<open>b0\<close>, the flag \<open>changed\<close> and
  the state.
\<close>

definition channelStep ::
  "Env \<Rightarrow> nat \<Rightarrow> SoundManager \<Rightarrow> nat \<Rightarrow> bool \<Rightarrow> error + (nat \<times> bool \<times> SoundManager)" where
  "channelStep env i s b0 changed =
     (case bucket (nanToSize env) (m_fft s) fftSize (length (m_colors s)) i b0 of
        Inl e \<Rightarrow> Inl e
      | Inr (peak, b1) \<Rightarrow>
          if i < length (m_peaks s) then
            (case trackPeak (m_frames s) (m_peaks s ! i) (scaleVal env peak) of
               Inl e \<Rightarrow> Inl e
             | Inr (p, val) \<Rightarrow>
                 if isLedEnabled env i then
                   Inr (b1, (if m_colors s ! i \<noteq> channelColor env s val then True else changed),
                        s\<lparr>m_peaks := (m_peaks s)[i := p],
                          m_colors := (m_colors s)[i := channelColor env s val]\<rparr>)
                 else
                   Inr (b1, changed,
                        s\<lparr>m_peaks := (m_peaks s)[i := p],
                          m_colors := (m_colors s)[i := 0]\<rparr>))
          else Inl OutOfBounds)"

function applyFftLoop ::
  "Env \<Rightarrow> SoundManager \<Rightarrow> nat \<Rightarrow> nat \<Rightarrow> bool \<Rightarrow> error + (bool \<times> SoundManager)" where
  "applyFftLoop env s i b0 changed =
     (if i < length (m_colors s) then
        (case channelStep env i s b0 changed of
           Inl e \<Rightarrow> Inl e
         | Inr (b1, changed', s') \<Rightarrow> applyFftLoop env s' (i + 1) b1 changed')
      else Inr (changed, s))"
  by pat_completeness auto
termination
  by (relation "measure (\<lambda>(env, s, i, b0, changed). length (m_colors s) - i)")
     (auto simp: channelStep_def split: sum.splits prod.splits if_splits)

declare applyFftLoop.simps [simp del]

definition applyFft :: "Env \<Rightarrow> SoundManager \<Rightarrow> error + (bool \<times> SoundManager)" where
  "applyFft env s = applyFftLoop env s 0 0 False"

section \<open>The operations of the class\<close>

text \<open>
  Modelled from the spec: \<open>updateFft\<close> is implemented by the platform classes only. It
  fetches the current magnitude spectrum from the capture backend into \<open>m_fft\<close>; the
  spectrum fetched is an argument of the operations that call it.
\<close>

definition updateFft :: "real list \<Rightarrow> SoundManager \<Rightarrow> SoundManager" where
  "updateFft spectrum s = s\<lparr>m_fft := spectrum\<rparr>"

definition initColors :: "int \<Rightarrow> SoundManager \<Rightarrow> SoundManager" where
  "initColors numberOfLeds s =
     s\<lparr>m_colors := replicate (nat numberOfLeds) 0, m_peaks := replicate (nat numberOfLeds) 0\<rparr>"

definition setNumberOfLeds :: "int \<Rightarrow> SoundManager \<Rightarrow> SoundManager" where
  "setNumberOfLeds numberOfLeds s = initColors numberOfLeds s"

definition setMinColor :: "QColor \<Rightarrow> SoundManager \<Rightarrow> SoundManager" where
  "setMinColor color s = s\<lparr>m_minColor := color\<rparr>"

definition setMaxColor :: "QColor \<Rightarrow> SoundManager \<Rightarrow> SoundManager" where
  "setMaxColor color s = s\<lparr>m_maxColor := color\<rparr>"

definition setSendDataOnlyIfColorsChanged :: "bool \<Rightarrow> SoundManager \<Rightarrow> SoundManager" where
  "setSendDataOnlyIfColorsChanged state s = s\<lparr>m_isSendDataOnlyIfColorsChanged := state\<rparr>"

definition reset :: "Env \<Rightarrow> SoundManager \<Rightarrow> SoundManager" where
  "reset env s =
     (let s = initColors (int (length (m_colors s))) s
      in s\<lparr>m_generator := generatorReset env (m_generator s)\<rparr>)"

definition updateColors ::
  "Env \<Rightarrow> real list \<Rightarrow> SoundManager \<Rightarrow> error + (Signal list \<times> SoundManager)" where
  "updateColors env spectrum s =
     (let s = s\<lparr>m_frames := m_frames s + 1\<rparr>;
          s = updateFft spectrum s
      in case applyFft env s of
           Inl e \<Rightarrow> Inl e
         | Inr (colorsChanged, s) \<Rightarrow>
             if colorsChanged \<or> \<not> m_isSendDataOnlyIfColorsChanged s
             then Inr ([UpdateLedsColors (m_colors s)], s)
             else Inr ([], s))"

definition setLiquidMode ::
  "Env \<Rightarrow> real list \<Rightarrow> bool \<Rightarrow> SoundManager \<Rightarrow> error + (Signal list \<times> SoundManager)" where
  "setLiquidMode env spectrum state s =
     (let s = s\<lparr>m_isLiquidMode := state\<rparr> in
      if m_isLiquidMode s \<and> m_isEnabled s
      then Inr ([], s\<lparr>m_generator := generatorStart (m_generator s)\<rparr>)
      else
        (let s = s\<lparr>m_generator := generatorStop (m_generator s)\<rparr> in
         if m_isEnabled s then updateColors env spectrum s else Inr ([], s)))"

definition requestDeviceList :: "Env \<Rightarrow> SoundManager \<Rightarrow> Signal list \<times> SoundManager" where
  "requestDeviceList env s =
     (let (ok, s) = (if \<not> m_isInited s then init env s else (True, s)) in
      if \<not> ok then ([], s\<lparr>m_isEnabled := False\<rparr>)
      else
        (let (devices, recommended) = populateDeviceList env s [] (- 1)
         in ([DeviceList devices recommended], s)))"

section \<open>Concrete configurations\<close>

text \<open>
  The two conversions of the example environment, in exact arithmetic. They are what IEEE
  arithmetic gives at the inputs of the examples below: the magnitudes 0, 1/64 and 1/256
  have the square roots 0, 1/8 and 1/16, and the colour components computed there lie
  well away from an integer or are 0.
\<close>

definition idealScale :: "real \<Rightarrow> int" where
  "idealScale peak = toInt (sqrt peak * real_of_int specHeight - 4)"

definition idealMix :: "int \<Rightarrow> int \<Rightarrow> int \<Rightarrow> int" where
  "idealMix f t val =
     toInt (real_of_int f + real_of_int (t - f) * (real_of_int val / real_of_int specHeight))"

text \<open>
  A two-channel engine in gradient mode from black to white with send-only-on-change
  switched on, every channel enabled, and a backend whose initialization fails.
\<close>

definition black :: QColor where
  "black = \<lparr>red = 0, green = 0, blue = 0\<rparr>"

definition white :: QColor where
  "white = \<lparr>red = 255, green = 255, blue = 255\<rparr>"

definition exampleEnv :: Env where
  "exampleEnv =
     \<lparr>isLedEnabled = (\<lambda>i. True), nanToSize = 0,
      scaleToInt = idealScale, mixToInt = idealMix, generatorReset = (\<lambda>g. g),
      init = (\<lambda>s. (False, s)), populateDeviceList = (\<lambda>s devices recommended. (devices, recommended))\<rparr>"

definition exampleState :: SoundManager where
  "exampleState =
     \<lparr>m_isEnabled = True, m_isInited = False, m_device = 0,
      m_minColor = black, m_maxColor = white,
      m_isLiquidMode = False, m_isSendDataOnlyIfColorsChanged = True,
      m_generator = \<lparr>running = False, speed = 0, current = \<lparr>red = 255, green = 0, blue = 0\<rparr>\<rparr>,
      m_colors = [0, 0], m_peaks = [0, 0], m_frames = 0, m_fft = replicate 1024 0\<rparr>"

text \<open>The same engine in liquid mode with the generator running.\<close>

definition liquidState :: SoundManager where
  "liquidState =
     exampleState\<lparr>m_isLiquidMode := True,
       m_generator := \<lparr>running = True, speed = 0, current = \<lparr>red = 255, green = 0, blue = 0\<rparr>\<rparr>\<rparr>"

section \<open>Properties\<close>

text \<open>The invariant of the peak sequence: every stored peak lies in \<open>0..specHeight\<close>.\<close>

definition peaksInRange :: "SoundManager \<Rightarrow> bool" where
  "peaksInRange s = (\<forall>p \<in> set (m_peaks s). 0 \<le> p \<and> p \<le> specHeight)"

text \<open>
  The ranges of the bucketizing loop form a chain from offset \<open>b\<close>: each starts where the
  one before ended and holds at least one offset. \<open>endOf\<close> is where the chain ends.
\<close>

fun contiguousFrom :: "nat \<Rightarrow> (nat \<times> nat \<times> real) list \<Rightarrow> bool" where
  "contiguousFrom b [] = True"
| "contiguousFrom b ((lo, hi, raw) # rs) = (lo = b \<and> lo < hi \<and> contiguousFrom hi rs)"

fun endOf :: "nat \<Rightarrow> (nat \<times> nat \<times> real) list \<Rightarrow> nat" where
  "endOf b [] = b"
| "endOf b ((lo, hi, raw) # rs) = endOf hi rs"

text \<open>
  The claim about the whole spectrum: the chain starts at offset 0 (bin 1) and ends at
  offset \<open>F - 1\<close> (bin \<open>F\<close>, exclusive).
\<close>

definition coversSpectrum :: "nat \<Rightarrow> (nat \<times> nat \<times> real) list \<Rightarrow> bool" where
  "coversSpectrum F rs = (contiguousFrom 0 rs \<and> endOf 0 rs = F - 1)"

text \<open>The largest magnitude among the bins of the offsets \<open>lo..<hi\<close>.\<close>

definition rangeMax :: "real list \<Rightarrow> nat \<Rightarrow> nat \<Rightarrow> real" where
  "rangeMax fft lo hi = Max ((\<lambda>b. fft ! (1 + b)) ` {lo..<hi})"

definition magnitudesNonNegative :: "real list \<Rightarrow> bool" where
  "magnitudesNonNegative fft = (\<forall>x \<in> set fft. 0 \<le> x)"


section \<open>Basic facts about the numeric steps\<close>

lemma scaleVal_range: "0 \<le> scaleVal env x \<and> scaleVal env x \<le> specHeight"
  by (simp add: scaleVal_def Let_def specHeight_def)

lemma updatePeak_ge: "val \<le> updatePeak frames p val \<and> 0 \<le> updatePeak frames p val"
  by (simp add: updatePeak_def Let_def)

lemma updatePeak_le:
  "p \<le> specHeight \<Longrightarrow> val \<le> specHeight \<Longrightarrow> updatePeak frames p val \<le> specHeight"
  by (simp add: updatePeak_def Let_def specHeight_def)

lemma trackPeak_fst:
  "trackPeak frames p val = Inr (p', val') \<Longrightarrow> p' = updatePeak frames p val"
  by (auto simp: trackPeak_def Let_def split: if_splits)

lemma scanBins_not_div: "scanBins fft b0 b1 peak \<noteq> Inl DivisionByZero"
proof (induction fft b0 b1 peak rule: scanBins.induct)
  case (1 fft b0 b1 peak)
  show ?case
    using "1.IH" by (subst scanBins.simps) simp
qed

lemma trackPeak_not_div: "0 \<le> val \<Longrightarrow> trackPeak frames p val \<noteq> Inl DivisionByZero"
  using updatePeak_ge [of val frames p] by (auto simp: trackPeak_def Let_def)

lemma channelStep_not_div: "channelStep env i s b0 changed \<noteq> Inl DivisionByZero"
  using scanBins_not_div trackPeak_not_div scaleVal_range
  by (auto simp: channelStep_def bucket_def split: sum.splits prod.splits)

lemma applyFftLoop_not_div: "applyFftLoop env s i b0 changed \<noteq> Inl DivisionByZero"
proof (induction env s i b0 changed rule: applyFftLoop.induct)
  case (1 env s i b0 changed)
  show ?case
    using "1.IH" channelStep_not_div [of env i s b0 changed]
    by (subst applyFftLoop.simps) (auto split: sum.splits prod.splits)
qed

section \<open>The loop of applyFft, channel by channel\<close>

lemma channelStepE:
  assumes "channelStep env i s b0 changed = Inr (b1, changed', s')"
  obtains peak p val where
    "bucket (nanToSize env) (m_fft s) fftSize (length (m_colors s)) i b0 = Inr (peak, b1)"
    "i < length (m_peaks s)"
    "trackPeak (m_frames s) (m_peaks s ! i) (scaleVal env peak) = Inr (p, val)"
    "s' = s\<lparr>m_peaks := (m_peaks s)[i := p],
            m_colors := (m_colors s)[i := (if isLedEnabled env i then channelColor env s val else 0)]\<rparr>"
    "changed' = (changed \<or> (isLedEnabled env i \<and> m_colors s ! i \<noteq> channelColor env s val))"
proof -
  obtain peak b1' where
    bk: "bucket (nanToSize env) (m_fft s) fftSize (length (m_colors s)) i b0 = Inr (peak, b1')"
    using assms by (auto simp: channelStep_def split: sum.splits)
  have i: "i < length (m_peaks s)"
    using assms bk by (simp add: channelStep_def split: if_splits)
  obtain p val where
    tp: "trackPeak (m_frames s) (m_peaks s ! i) (scaleVal env peak) = Inr (p, val)"
    using assms bk i by (auto simp: channelStep_def split: sum.splits)
  have res: "channelStep env i s b0 changed =
      (if isLedEnabled env i then
         Inr (b1', (if m_colors s ! i \<noteq> channelColor env s val then True else changed),
              s\<lparr>m_peaks := (m_peaks s)[i := p], m_colors := (m_colors s)[i := channelColor env s val]\<rparr>)
       else Inr (b1', changed, s\<lparr>m_peaks := (m_peaks s)[i := p], m_colors := (m_colors s)[i := 0]\<rparr>))"
    using bk i tp by (simp add: channelStep_def)
  show thesis
  proof (cases "isLedEnabled env i")
    case True
    with res assms have "b1 = b1'" "changed' = (changed \<or> m_colors s ! i \<noteq> channelColor env s val)"
      "s' = s\<lparr>m_peaks := (m_peaks s)[i := p], m_colors := (m_colors s)[i := channelColor env s val]\<rparr>"
      by (simp_all split: if_splits)
    with True bk i tp that [of peak p val] show thesis by simp
  next
    case False
    with res assms have "b1 = b1'" "changed' = changed"
      "s' = s\<lparr>m_peaks := (m_peaks s)[i := p], m_colors := (m_colors s)[i := 0]\<rparr>"
      by simp_all
    with False bk i tp that [of peak p val] show thesis by simp
  qed
qed

lemma applyFftLoop_frame:
  "applyFftLoop env s i b0 changed = Inr (changed', s') \<Longrightarrow>
     \<exists>ps cs. s' = s\<lparr>m_peaks := ps, m_colors := cs\<rparr> \<and>
       length ps = length (m_peaks s) \<and> length cs = length (m_colors s) \<and>
       (\<forall>j<i. ps ! j = m_peaks s ! j \<and> cs ! j = m_colors s ! j)"
proof (induction env s i b0 changed rule: applyFftLoop.induct)
  case (1 env s i b0 changed)
  show ?case
  proof (cases "i < length (m_colors s)")
    case False
    with "1.prems" have "s' = s"
      by (subst (asm) applyFftLoop.simps) simp
    then show ?thesis
      by (intro exI [of _ "m_peaks s"] exI [of _ "m_colors s"]) simp
  next
    case True
    with "1.prems" obtain b1 ch1 s1 where
      step: "channelStep env i s b0 changed = Inr (b1, ch1, s1)" and
      rest: "applyFftLoop env s1 (i + 1) b1 ch1 = Inr (changed', s')"
      by (subst (asm) applyFftLoop.simps) (auto split: sum.splits prod.splits)
    from step obtain p c where
      s1: "s1 = s\<lparr>m_peaks := (m_peaks s)[i := p], m_colors := (m_colors s)[i := c]\<rparr>"
      by (rule channelStepE)
    from "1.IH" [OF True step refl refl rest] obtain ps cs where
      s': "s' = s1\<lparr>m_peaks := ps, m_colors := cs\<rparr>" and
      len: "length ps = length (m_peaks s1)" "length cs = length (m_colors s1)" and
      keep: "\<forall>j<i + 1. ps ! j = m_peaks s1 ! j \<and> cs ! j = m_colors s1 ! j"
      by blast
    show ?thesis
    proof (intro exI [of _ ps] exI [of _ cs] conjI allI impI)
      show "s' = s\<lparr>m_peaks := ps, m_colors := cs\<rparr>" using s' s1 by simp
      show "length ps = length (m_peaks s)" using len s1 by simp
      show "length cs = length (m_colors s)" using len s1 by simp
    next
      fix j assume "j < i"
      then show "ps ! j = m_peaks s ! j" using keep s1 by simp
    next
      fix j assume "j < i"
      then show "cs ! j = m_colors s ! j" using keep s1 by simp
    qed
  qed
qed

lemma channelStep_peaksInRange:
  assumes "peaksInRange s" "channelStep env i s b0 changed = Inr (b1, changed', s')"
  shows "peaksInRange s'"
proof -
  from assms(2) obtain peak p val where
    i: "i < length (m_peaks s)" and
    tp: "trackPeak (m_frames s) (m_peaks s ! i) (scaleVal env peak) = Inr (p, val)" and
    s'_eq: "s' = s\<lparr>m_peaks := (m_peaks s)[i := p],
            m_colors := (m_colors s)[i := (if isLedEnabled env i then channelColor env s val else 0)]\<rparr>"
    by (rule channelStepE)
  have s': "m_peaks s' = (m_peaks s)[i := p]"
    by (simp add: s'_eq)
  have old: "0 \<le> m_peaks s ! i \<and> m_peaks s ! i \<le> specHeight"
    using assms(1) i by (simp add: peaksInRange_def)
  have p: "p = updatePeak (m_frames s) (m_peaks s ! i) (scaleVal env peak)"
    using tp by (rule trackPeak_fst)
  have "0 \<le> p \<and> p \<le> specHeight"
    using old updatePeak_ge [of "scaleVal env peak" "m_frames s" "m_peaks s ! i"]
      updatePeak_le [of "m_peaks s ! i" "scaleVal env peak" "m_frames s"] scaleVal_range [of env peak]
    by (simp add: p)
  then show ?thesis
    using assms(1) set_update_subset_insert [of "m_peaks s" i p]
    by (auto simp: peaksInRange_def s')
qed

lemma applyFftLoop_peaksInRange:
  "peaksInRange s \<Longrightarrow> applyFftLoop env s i b0 changed = Inr (changed', s') \<Longrightarrow> peaksInRange s'"
proof (induction env s i b0 changed rule: applyFftLoop.induct)
  case (1 env s i b0 changed)
  show ?case
  proof (cases "i < length (m_colors s)")
    case False
    with "1.prems" show ?thesis
      by (subst (asm) applyFftLoop.simps) simp
  next
    case True
    with "1.prems" obtain b1 ch1 s1 where
      step: "channelStep env i s b0 changed = Inr (b1, ch1, s1)" and
      rest: "applyFftLoop env s1 (i + 1) b1 ch1 = Inr (changed', s')"
      by (subst (asm) applyFftLoop.simps) (auto split: sum.splits prod.splits)
    from "1.IH" [OF True step refl refl _ rest] channelStep_peaksInRange [OF "1.prems"(1) step]
    show ?thesis by blast
  qed
qed

lemma applyFft_peaksInRange:
  "peaksInRange s \<Longrightarrow> applyFft env s = Inr (changed, s') \<Longrightarrow> peaksInRange s'"
  unfolding applyFft_def by (rule applyFftLoop_peaksInRange)

lemma updateColors_peaksInRange:
  "peaksInRange s \<Longrightarrow> updateColors env spectrum s = Inr (out, s') \<Longrightarrow> peaksInRange s'"
  using applyFft_peaksInRange [of "s\<lparr>m_frames := m_frames s + 1, m_fft := spectrum\<rparr>" env]
  by (auto simp: updateColors_def updateFft_def Let_def peaksInRange_def
           split: sum.splits prod.splits if_splits)

lemma initColors_peaksInRange: "peaksInRange (initColors n s)"
  by (simp add: initColors_def peaksInRange_def specHeight_def)

section \<open>The bins of a channel\<close>


lemma Max_insert_fold:
  fixes a b :: real
  assumes "finite S"
  shows "Max (insert (if a < b then b else a) S) = Max (insert a (insert b S))"
proof (cases "S = {}")
  case True
  then show ?thesis by (simp add: max_def)
next
  case False
  with assms show ?thesis by (simp add: max_def)
qed

lemma scanBins_Inr:
  "b0 \<le> b1 \<Longrightarrow> (b0 < b1 \<longrightarrow> b1 < length fft) \<Longrightarrow>
     scanBins fft b0 b1 peak = Inr (Max (insert peak ((\<lambda>b. fft ! (1 + b)) ` {b0..<b1})), b1)"
proof (induction fft b0 b1 peak rule: scanBins.induct)
  case (1 fft b0 b1 peak)
  show ?case
  proof (cases "b0 < b1")
    case False
    with "1.prems" show ?thesis by (subst scanBins.simps) simp
  next
    case True
    let ?f = "\<lambda>b. fft ! (1 + b)"
    let ?p = "if peak < fft ! (1 + b0) then fft ! (1 + b0) else peak"
    have inr: "1 + b0 < length fft" using True "1.prems" by simp
    have "scanBins fft (b0 + 1) b1 ?p = Inr (Max (insert ?p (?f ` {b0 + 1..<b1})), b1)"
      using "1.IH" [OF True inr] True "1.prems" by simp
    moreover have "{b0..<b1} = insert b0 {b0 + 1..<b1}"
      using True by auto
    moreover have "Max (insert ?p (?f ` {b0 + 1..<b1})) = Max (insert peak (insert (?f b0) (?f ` {b0 + 1..<b1})))"
      by (rule Max_insert_fold) simp
    ultimately show ?thesis
      using True inr by (subst scanBins.simps) simp
  qed
qed

lemma scanBins_reads_in_range:
  "scanBins fft b0 b1 peak = Inr r \<Longrightarrow> b0 < b1 \<Longrightarrow> b1 < length fft"
proof (induction fft b0 b1 peak rule: scanBins.induct)
  case (1 fft b0 b1 peak)
  from "1.prems" have inr: "1 + b0 < length fft"
    by (subst (asm) scanBins.simps) (simp split: if_splits)
  show ?case
  proof (cases "b0 + 1 < b1")
    case True
    from "1.prems" inr have "scanBins fft (b0 + 1) b1 (if peak < fft ! (1 + b0) then fft ! (1 + b0) else peak) = Inr r"
      by (subst (asm) scanBins.simps) simp
    from "1.IH" [OF "1.prems"(2) inr this True] show ?thesis .
  next
    case False
    with "1.prems"(2) inr show ?thesis by simp
  qed
qed

lemma upperBound_gt: "b0 < upperBound nan F n i b0"
  by (simp add: upperBound_def cappedBound_def Let_def)

lemma upperBound_le: "upperBound nan F n i b0 \<le> max (b0 + 1) (F - 1)"
  by (simp add: upperBound_def cappedBound_def Let_def)

lemma powBound_le_512:
  assumes "2 \<le> n" "i < n"
  shows "powBound nan n i \<le> 512"
proof -
  have "real i * 9 / real (n - 1) \<le> 9"
    using assms by (simp add: field_simps)
  then have "2 powr (real i * 9 / real (n - 1)) \<le> (2::real) powr 9"
    by (intro powr_mono) simp_all
  moreover have "(2::real) powr 9 = 512" by simp
  ultimately have "2 powr (real i * 9 / real (n - 1)) \<le> 512" by simp
  moreover have "0 \<le> 2 powr (real i * 9 / real (n - 1))" by simp
  ultimately have "toInt (2 powr (real i * 9 / real (n - 1))) \<le> 512"
    unfolding toInt_def by (simp add: floor_le_iff)
  then show ?thesis using assms by (simp add: powBound_def)
qed

lemma upperBound_small:
  assumes "2 \<le> n" "i < n" "b0 \<le> 512 + i"
  shows "upperBound nan F n i b0 \<le> 512 + (i + 1)"
proof -
  have "powBound nan n i \<le> 512" using assms powBound_le_512 [of n i nan] by simp
  then show ?thesis using assms by (auto simp add: upperBound_def cappedBound_def Let_def)
qed

section \<open>Running the loop again\<close>

lemma trackPeak_Inr:
  "0 \<le> val \<Longrightarrow>
     trackPeak frames p val =
       Inr (updatePeak frames p val,
            if val < updatePeak frames p val - 5
            then (val * specHeight) sdiv updatePeak frames p val else val)"
  using updatePeak_ge [of val frames p] by (auto simp: trackPeak_def Let_def)

lemma updatePeak_again:
  "(frames + 1) mod 5 \<noteq> 0 \<Longrightarrow>
     updatePeak (frames + 1) (updatePeak frames p val) val = updatePeak frames p val"
  using updatePeak_ge [of val frames p]
  by (simp add: updatePeak_def [of "frames + 1"])

lemma trackPeak_again:
  assumes "trackPeak frames p0 v = Inr (p, val)" "(frames + 1) mod 5 \<noteq> 0" "0 \<le> v"
  shows "trackPeak (frames + 1) p v = Inr (p, val)"
proof -
  have p: "p = updatePeak frames p0 v" using assms(1) by (rule trackPeak_fst)
  have val: "val = (if v < p - 5 then (v * specHeight) sdiv p else v)"
    using assms(1) unfolding trackPeak_Inr [OF assms(3)] p by simp
  have up: "updatePeak (frames + 1) p v = p"
    unfolding p using assms(2) by (rule updatePeak_again)
  show ?thesis
    unfolding trackPeak_Inr [OF assms(3)] up val by simp
qed

lemma channelStep_Inr:
  assumes "bucket (nanToSize env) (m_fft s) fftSize (length (m_colors s)) i b0 = Inr (peak, b1)"
    "i < length (m_peaks s)"
    "trackPeak (m_frames s) (m_peaks s ! i) (scaleVal env peak) = Inr (p, val)"
  shows "channelStep env i s b0 changed =
     Inr (b1, changed \<or> (isLedEnabled env i \<and> m_colors s ! i \<noteq> channelColor env s val),
          s\<lparr>m_peaks := (m_peaks s)[i := p],
            m_colors := (m_colors s)[i := (if isLedEnabled env i then channelColor env s val else 0)]\<rparr>)"
  using assms by (simp add: channelStep_def)

lemma channelColor_frame [simp]:
  "channelColor env (s\<lparr>m_peaks := ps, m_colors := cs\<rparr>) val = channelColor env s val"
  "channelColor env (s\<lparr>m_frames := f\<rparr>) val = channelColor env s val"
  "channelColor env (s\<lparr>m_fft := x\<rparr>) val = channelColor env s val"
  by (simp_all add: channelColor_def)

lemma applyFftLoop_step:
  "i < length (m_colors s) \<Longrightarrow> channelStep env i s b0 changed = Inr (b1, ch1, s1) \<Longrightarrow>
     applyFftLoop env s i b0 changed = applyFftLoop env s1 (i + 1) b1 ch1"
  by (subst applyFftLoop.simps) simp

lemma applyFftLoop_done:
  "\<not> i < length (m_colors s) \<Longrightarrow> applyFftLoop env s i b0 changed = Inr (changed, s)"
  by (subst applyFftLoop.simps) simp

lemma applyFftLoop_cases:
  assumes "applyFftLoop env s i b0 changed = Inr (changed', s')"
  obtains (last) "\<not> i < length (m_colors s)" "changed' = changed" "s' = s"
  | (iter) b1 ch1 s1 where "i < length (m_colors s)"
      "channelStep env i s b0 changed = Inr (b1, ch1, s1)"
      "applyFftLoop env s1 (i + 1) b1 ch1 = Inr (changed', s')"
proof (cases "i < length (m_colors s)")
  case False
  from assms have "changed' = changed \<and> s' = s"
    unfolding applyFftLoop_done [OF False] by simp
  with False last show thesis by blast
next
  case True
  have "\<exists>b1 ch1 s1. channelStep env i s b0 changed = Inr (b1, ch1, s1)"
  proof (cases "channelStep env i s b0 changed")
    case (Inl e)
    with assms True show ?thesis
      by (subst (asm) applyFftLoop.simps) simp
  next
    case (Inr r)
    then show ?thesis by (cases r) auto
  qed
  then obtain b1 ch1 s1 where
    st: "channelStep env i s b0 changed = Inr (b1, ch1, s1)" by blast
  from assms have "applyFftLoop env s1 (i + 1) b1 ch1 = Inr (changed', s')"
    unfolding applyFftLoop_step [OF True st] .
  with True st iter show thesis by blast
qed

lemma applyFftLoop_again:
  "applyFftLoop env s i b0 changed = Inr (changed', s') \<Longrightarrow> (m_frames s + 1) mod 5 \<noteq> 0 \<Longrightarrow>
     applyFftLoop env (s'\<lparr>m_frames := m_frames s + 1\<rparr>) i b0 False =
       Inr (False, s'\<lparr>m_frames := m_frames s + 1\<rparr>)"
proof (induction env s i b0 changed rule: applyFftLoop.induct)
  case (1 env s i b0 changed)
  let ?t = "s'\<lparr>m_frames := m_frames s + 1\<rparr>"
  from "1.prems"(1) show ?case
  proof (cases rule: applyFftLoop_cases)
    case last
    then show ?thesis by (simp add: applyFftLoop_done)
  next
    case (iter b1 ch1 s1)
    from iter(2) obtain peak p val where
      bk: "bucket (nanToSize env) (m_fft s) fftSize (length (m_colors s)) i b0 = Inr (peak, b1)" and
      i: "i < length (m_peaks s)" and
      tp: "trackPeak (m_frames s) (m_peaks s ! i) (scaleVal env peak) = Inr (p, val)" and
      s1: "s1 = s\<lparr>m_peaks := (m_peaks s)[i := p],
            m_colors := (m_colors s)[i := (if isLedEnabled env i then channelColor env s val else 0)]\<rparr>"
      by (rule channelStepE)
    from applyFftLoop_frame [OF iter(3)] obtain ps cs where
      s': "s' = s1\<lparr>m_peaks := ps, m_colors := cs\<rparr>" and
      len: "length ps = length (m_peaks s1)" "length cs = length (m_colors s1)" and
      keep: "\<forall>j<i + 1. ps ! j = m_peaks s1 ! j \<and> cs ! j = m_colors s1 ! j"
      by blast
    have psi: "ps ! i = p" using keep i s1 by simp
    have csi: "cs ! i = (if isLedEnabled env i then channelColor env s val else 0)"
      using keep iter(1) s1 by simp
    have t_fields: "m_fft ?t = m_fft s" "length (m_colors ?t) = length (m_colors s)"
      "m_frames ?t = m_frames s + 1" "m_peaks ?t = ps" "m_colors ?t = cs"
      "length (m_peaks ?t) = length (m_peaks s)"
      using s' s1 len by simp_all
    have col: "channelColor env ?t val = channelColor env s val"
      using s' s1 by simp
    have bk_t: "bucket (nanToSize env) (m_fft ?t) fftSize (length (m_colors ?t)) i b0 = Inr (peak, b1)"
      using bk t_fields by simp
    have tp_t: "trackPeak (m_frames ?t) (m_peaks ?t ! i) (scaleVal env peak) = Inr (p, val)"
      using trackPeak_again [OF tp "1.prems"(2)] scaleVal_range [of env peak] t_fields psi by simp
    have i_t: "i < length (m_peaks ?t)" using i t_fields by simp
    have "ps[i := p] = ps" using psi by (metis list_update_id)
    moreover have "cs[i := (if isLedEnabled env i then channelColor env s val else 0)] = cs"
      using csi by (metis list_update_id)
    ultimately have same: "?t\<lparr>m_peaks := (m_peaks ?t)[i := p],
            m_colors := (m_colors ?t)[i := (if isLedEnabled env i then channelColor env ?t val else 0)]\<rparr> = ?t"
      unfolding col t_fields by (simp add: s')
    have "channelStep env i ?t b0 False = Inr (b1, False, ?t)"
      using channelStep_Inr [OF bk_t i_t tp_t, of False] same csi col t_fields by auto
    moreover have "i < length (m_colors ?t)" using iter(1) t_fields by simp
    ultimately have "applyFftLoop env ?t i b0 False = applyFftLoop env ?t (i + 1) b1 False"
      by (rule applyFftLoop_step [rotated])
    moreover have "m_frames s1 = m_frames s" using s1 by simp
    ultimately show ?thesis
      using "1.IH" [OF iter(1) iter(2) refl refl iter(3)] "1.prems"(2) by simp
  qed
qed

section \<open>What sets the flag\<close>

lemma ex_from_split:
  "(\<exists>j::nat. i \<le> j \<and> P j) = (P i \<or> (\<exists>j. i + 1 \<le> j \<and> P j))"
proof
  assume "\<exists>j. i \<le> j \<and> P j"
  then obtain j where j: "i \<le> j" "P j" by blast
  show "P i \<or> (\<exists>j. i + 1 \<le> j \<and> P j)"
  proof (cases "j = i")
    case True
    with j show ?thesis by simp
  next
    case False
    with j have "i + 1 \<le> j" by simp
    with j show ?thesis by blast
  qed
next
  assume "P i \<or> (\<exists>j. i + 1 \<le> j \<and> P j)"
  then show "\<exists>j. i \<le> j \<and> P j"
  proof
    assume "P i"
    then show ?thesis by blast
  next
    assume "\<exists>j. i + 1 \<le> j \<and> P j"
    then obtain j where "i + 1 \<le> j" "P j" by blast
    then have "i \<le> j \<and> P j" by simp
    then show ?thesis ..
  qed
qed

lemma all_from_split:
  "(\<forall>j::nat. i \<le> j \<and> P j \<longrightarrow> Q j) = ((P i \<longrightarrow> Q i) \<and> (\<forall>j. i + 1 \<le> j \<and> P j \<longrightarrow> Q j))"
proof -
  have "(\<exists>j. i \<le> j \<and> (P j \<and> \<not> Q j)) = ((P i \<and> \<not> Q i) \<or> (\<exists>j. i + 1 \<le> j \<and> (P j \<and> \<not> Q j)))"
    by (rule ex_from_split)
  then show ?thesis by blast
qed

lemma applyFftLoop_changed:
  "applyFftLoop env s i b0 changed = Inr (changed', s') \<Longrightarrow>
     changed' = (changed \<or> (\<exists>j. i \<le> j \<and> (j < length (m_colors s) \<and> isLedEnabled env j \<and>
                               m_colors s' ! j \<noteq> m_colors s ! j))) \<and>
     (\<forall>j. i \<le> j \<and> (j < length (m_colors s) \<and> \<not> isLedEnabled env j) \<longrightarrow> m_colors s' ! j = 0)"
proof (induction env s i b0 changed rule: applyFftLoop.induct)
  case (1 env s i b0 changed)
  from "1.prems"(1) show ?case
  proof (cases rule: applyFftLoop_cases)
    case last
    have "\<not> (\<exists>j. i \<le> j \<and> (j < length (m_colors s) \<and> isLedEnabled env j \<and>
                               m_colors s' ! j \<noteq> m_colors s ! j))"
      using last(1) by auto
    moreover have "\<forall>j. i \<le> j \<and> (j < length (m_colors s) \<and> \<not> isLedEnabled env j) \<longrightarrow> m_colors s' ! j = 0"
      using last(1) by auto
    ultimately show ?thesis using last(2) by blast
  next
    case (iter b1 ch1 s1)
    let ?c = "\<lambda>val. if isLedEnabled env i then channelColor env s val else 0"
    from iter(2) obtain peak p val where
      s1: "s1 = s\<lparr>m_peaks := (m_peaks s)[i := p], m_colors := (m_colors s)[i := ?c val]\<rparr>" and
      ch1: "ch1 = (changed \<or> (isLedEnabled env i \<and> m_colors s ! i \<noteq> channelColor env s val))"
      by (rule channelStepE)
    from applyFftLoop_frame [OF iter(3)] obtain ps cs where
      s': "s' = s1\<lparr>m_peaks := ps, m_colors := cs\<rparr>" and
      keep: "\<forall>j<i + 1. ps ! j = m_peaks s1 ! j \<and> cs ! j = m_colors s1 ! j"
      by blast
    have ci: "m_colors s' ! i = ?c val"
      using keep s' s1 iter(1) by simp
    have other: "\<And>j. i + 1 \<le> j \<Longrightarrow> m_colors s1 ! j = m_colors s ! j"
      using s1 by simp
    have len: "length (m_colors s1) = length (m_colors s)" using s1 by simp
    have ex_eq: "(\<exists>j. i + 1 \<le> j \<and> (j < length (m_colors s1) \<and> isLedEnabled env j \<and>
                               m_colors s' ! j \<noteq> m_colors s1 ! j)) =
                 (\<exists>j. i + 1 \<le> j \<and> (j < length (m_colors s) \<and> isLedEnabled env j \<and>
                               m_colors s' ! j \<noteq> m_colors s ! j))"
      unfolding len by (intro ex_cong1 conj_cong refl) (simp add: other)
    have all_eq: "(\<forall>j. i + 1 \<le> j \<and> (j < length (m_colors s1) \<and> \<not> isLedEnabled env j) \<longrightarrow> m_colors s' ! j = 0) =
        (\<forall>j. i + 1 \<le> j \<and> (j < length (m_colors s) \<and> \<not> isLedEnabled env j) \<longrightarrow> m_colors s' ! j = 0)"
      unfolding len by (rule refl)
    have ih0: "changed' = (ch1 \<or> (\<exists>j. i + 1 \<le> j \<and> (j < length (m_colors s1) \<and> isLedEnabled env j \<and>
                               m_colors s' ! j \<noteq> m_colors s1 ! j))) \<and>
        (\<forall>j. i + 1 \<le> j \<and> (j < length (m_colors s1) \<and> \<not> isLedEnabled env j) \<longrightarrow> m_colors s' ! j = 0)"
      by (rule "1.IH" [OF iter(1) iter(2) refl refl iter(3)])
    have ih_a: "changed' = (ch1 \<or> (\<exists>j. i + 1 \<le> j \<and> (j < length (m_colors s) \<and> isLedEnabled env j \<and>
                               m_colors s' ! j \<noteq> m_colors s ! j)))"
      by (subst ex_eq [symmetric], rule ih0 [THEN conjunct1])
    have ih_b: "\<forall>j. i + 1 \<le> j \<and> (j < length (m_colors s) \<and> \<not> isLedEnabled env j) \<longrightarrow> m_colors s' ! j = 0"
      by (subst all_eq [symmetric], rule ih0 [THEN conjunct2])
    have here: "(i < length (m_colors s) \<and> isLedEnabled env i \<and> m_colors s' ! i \<noteq> m_colors s ! i) =
        (isLedEnabled env i \<and> m_colors s ! i \<noteq> channelColor env s val)"
      unfolding ci using iter(1) by (cases "isLedEnabled env i") auto
    have here0: "i < length (m_colors s) \<and> \<not> isLedEnabled env i \<longrightarrow> m_colors s' ! i = 0"
      unfolding ci by simp
    let ?P = "\<lambda>j. j < length (m_colors s) \<and> isLedEnabled env j \<and>
                               m_colors s' ! j \<noteq> m_colors s ! j"
    have "(\<exists>j. i \<le> j \<and> ?P j) = (?P i \<or> (\<exists>j. i + 1 \<le> j \<and> ?P j))"
      by (rule ex_from_split)
    then have a: "changed' = (changed \<or> (\<exists>j. i \<le> j \<and> ?P j))"
      using ih_a ch1 here by blast
    let ?Q = "\<lambda>j. j < length (m_colors s) \<and> \<not> isLedEnabled env j"
    have "(\<forall>j. i \<le> j \<and> ?Q j \<longrightarrow> m_colors s' ! j = 0) =
        ((?Q i \<longrightarrow> m_colors s' ! i = 0) \<and> (\<forall>j. i + 1 \<le> j \<and> ?Q j \<longrightarrow> m_colors s' ! j = 0))"
      by (rule all_from_split)
    then have b: "\<forall>j. i \<le> j \<and> ?Q j \<longrightarrow> m_colors s' ! j = 0"
      using ih_b here0 by blast
    from a b show ?thesis ..
  qed
qed

section \<open>updateColors\<close>

lemma applyFft_frame:
  assumes "applyFft env s = Inr (changed, s')"
  obtains ps cs where "s' = s\<lparr>m_peaks := ps, m_colors := cs\<rparr>"
    "length ps = length (m_peaks s)" "length cs = length (m_colors s)"
  using applyFftLoop_frame [OF assms [unfolded applyFft_def]] by blast

lemma updateColorsE:
  assumes "updateColors env spectrum s = Inr (out, s')"
  obtains changed ps cs where
    "applyFft env (s\<lparr>m_frames := m_frames s + 1, m_fft := spectrum\<rparr>) = Inr (changed, s')"
    "out = (if changed \<or> \<not> m_isSendDataOnlyIfColorsChanged s
            then [UpdateLedsColors (m_colors s')] else [])"
    "s' = s\<lparr>m_frames := m_frames s + 1, m_fft := spectrum, m_peaks := ps, m_colors := cs\<rparr>"
    "length ps = length (m_peaks s)" "length cs = length (m_colors s)"
proof -
  let ?s0 = "s\<lparr>m_frames := m_frames s + 1, m_fft := spectrum\<rparr>"
  obtain changed s1 where ap: "applyFft env ?s0 = Inr (changed, s1)"
    using assms by (cases "applyFft env ?s0") (auto simp: updateColors_def updateFft_def Let_def)
  from ap obtain ps cs where
    s1: "s1 = ?s0\<lparr>m_peaks := ps, m_colors := cs\<rparr>" and
    len: "length ps = length (m_peaks ?s0)" "length cs = length (m_colors ?s0)"
    by (rule applyFft_frame)
  have gate: "m_isSendDataOnlyIfColorsChanged s1 = m_isSendDataOnlyIfColorsChanged s"
    using s1 by simp
  have uc: "updateColors env spectrum s =
      (if changed \<or> \<not> m_isSendDataOnlyIfColorsChanged s1
       then Inr ([UpdateLedsColors (m_colors s1)], s1) else Inr ([], s1))"
    using ap by (simp add: updateColors_def updateFft_def Let_def)
  have eq: "s' = s1 \<and> out = (if changed \<or> \<not> m_isSendDataOnlyIfColorsChanged s
            then [UpdateLedsColors (m_colors s1)] else [])"
  proof (cases "changed \<or> \<not> m_isSendDataOnlyIfColorsChanged s")
    case True
    with uc assms gate show ?thesis by simp
  next
    case False
    with uc assms gate show ?thesis by simp
  qed
  show thesis
  proof (rule that)
    show "applyFft env ?s0 = Inr (changed, s')" using ap eq by simp
    show "out = (if changed \<or> \<not> m_isSendDataOnlyIfColorsChanged s
            then [UpdateLedsColors (m_colors s')] else [])" using eq by simp
    show "s' = s\<lparr>m_frames := m_frames s + 1, m_fft := spectrum, m_peaks := ps, m_colors := cs\<rparr>"
      using eq s1 by simp
    show "length ps = length (m_peaks s)" using len by simp
    show "length cs = length (m_colors s)" using len by simp
  qed
qed

lemma updateColors_Inr:
  assumes "applyFft env (s\<lparr>m_frames := m_frames s + 1, m_fft := spectrum\<rparr>) = Inr (changed, s')"
  shows "updateColors env spectrum s =
     Inr (if changed \<or> \<not> m_isSendDataOnlyIfColorsChanged s
          then [UpdateLedsColors (m_colors s')] else [], s')"
proof -
  from assms obtain ps cs where
    "s' = s\<lparr>m_frames := m_frames s + 1, m_fft := spectrum\<rparr>\<lparr>m_peaks := ps, m_colors := cs\<rparr>"
    by (rule applyFft_frame)
  then have "m_isSendDataOnlyIfColorsChanged s' = m_isSendDataOnlyIfColorsChanged s" by simp
  then show ?thesis using assms by (simp add: updateColors_def updateFft_def Let_def)
qed

lemma updateColors_again:
  assumes "updateColors env spectrum s = Inr (out, s1)"
    "m_isSendDataOnlyIfColorsChanged s" "(m_frames s + 2) mod 5 \<noteq> 0"
  shows "updateColors env spectrum s1 = Inr ([], s1\<lparr>m_frames := m_frames s1 + 1\<rparr>)"
proof -
  let ?s0 = "s\<lparr>m_frames := m_frames s + 1, m_fft := spectrum\<rparr>"
  from assms(1) obtain changed ps cs where
    ap: "applyFft env ?s0 = Inr (changed, s1)" and
    s1: "s1 = s\<lparr>m_frames := m_frames s + 1, m_fft := spectrum, m_peaks := ps, m_colors := cs\<rparr>"
    by (rule updateColorsE)
  have "(m_frames ?s0 + 1) mod 5 \<noteq> 0" using assms(3) by (simp add: add.assoc)
  from applyFftLoop_again [OF ap [unfolded applyFft_def] this]
  have again: "applyFft env (s1\<lparr>m_frames := m_frames ?s0 + 1\<rparr>) =
      Inr (False, s1\<lparr>m_frames := m_frames ?s0 + 1\<rparr>)"
    by (simp add: applyFft_def)
  have t1: "s1\<lparr>m_frames := m_frames s1 + 1, m_fft := spectrum\<rparr> = s1\<lparr>m_frames := m_frames ?s0 + 1\<rparr>"
    using s1 by simp
  have t2: "s1\<lparr>m_frames := m_frames s1 + 1\<rparr> = s1\<lparr>m_frames := m_frames ?s0 + 1\<rparr>"
    using s1 by simp
  have ap2: "applyFft env (s1\<lparr>m_frames := m_frames s1 + 1, m_fft := spectrum\<rparr>) =
      Inr (False, s1\<lparr>m_frames := m_frames s1 + 1\<rparr>)"
    by (subst t1, subst t2, rule again)
  have gate: "m_isSendDataOnlyIfColorsChanged s1" using s1 assms(2) by simp
  show ?thesis
    unfolding updateColors_Inr [OF ap2] using gate by simp
qed

section \<open>Calls that complete\<close>

lemma channelStep_total:
  assumes "i < length (m_peaks s)"
    "upperBound (nanToSize env) fftSize (length (m_colors s)) i b0 < length (m_fft s)"
  shows "\<exists>ch1 p c. channelStep env i s b0 changed =
     Inr (upperBound (nanToSize env) fftSize (length (m_colors s)) i b0, ch1,
          s\<lparr>m_peaks := (m_peaks s)[i := p], m_colors := (m_colors s)[i := c]\<rparr>)"
proof -
  let ?b1 = "upperBound (nanToSize env) fftSize (length (m_colors s)) i b0"
  have "b0 \<le> ?b1" using upperBound_gt [of b0 "nanToSize env" fftSize "length (m_colors s)" i] by simp
  then obtain peak where
    bk: "bucket (nanToSize env) (m_fft s) fftSize (length (m_colors s)) i b0 = Inr (peak, ?b1)"
    using scanBins_Inr [of b0 ?b1 "m_fft s" 0] assms(2) by (simp add: bucket_def)
  obtain p val where tp: "trackPeak (m_frames s) (m_peaks s ! i) (scaleVal env peak) = Inr (p, val)"
    using trackPeak_Inr [of "scaleVal env peak" "m_frames s" "m_peaks s ! i"] scaleVal_range [of env peak]
    by simp
  from channelStep_Inr [OF bk assms(1) tp, of changed] show ?thesis by blast
qed

lemma applyFftLoop_total:
  "length (m_peaks s) = length (m_colors s) \<Longrightarrow> fftSize \<le> length (m_fft s) \<Longrightarrow>
   length (m_colors s) \<le> 511 \<Longrightarrow> (i < length (m_colors s) \<longrightarrow> b0 \<le> 512 + i) \<Longrightarrow>
     \<exists>changed' s'. applyFftLoop env s i b0 changed = Inr (changed', s')"
proof (induction env s i b0 changed rule: applyFftLoop.induct)
  case (1 env s i b0 changed)
  show ?case
  proof (cases "i < length (m_colors s)")
    case False
    then show ?thesis by (simp add: applyFftLoop_done)
  next
    case True
    let ?n = "length (m_colors s)"
    let ?b1 = "upperBound (nanToSize env) fftSize ?n i b0"
    have b0: "b0 \<le> 512 + i" using True "1.prems"(4) by simp
    have ub: "?b1 \<le> 1023 \<and> (i + 1 < ?n \<longrightarrow> ?b1 \<le> 512 + (i + 1))"
    proof (cases "2 \<le> ?n")
      case True
      from upperBound_small [OF True \<open>i < ?n\<close> b0, of "nanToSize env" fftSize] "1.prems"(3) \<open>i < ?n\<close>
      show ?thesis by simp
    next
      case False
      with \<open>i < ?n\<close> have "i = 0" "\<not> i + 1 < ?n" by simp_all
      with b0 upperBound_le [of "nanToSize env" fftSize ?n i b0] show ?thesis
        by (simp add: fftSize_def)
    qed
    then have "?b1 < length (m_fft s)" using "1.prems"(2) by (simp add: fftSize_def)
    from channelStep_total [OF _ this, of changed] True "1.prems"(1) obtain ch1 p c where
      st: "channelStep env i s b0 changed =
        Inr (?b1, ch1, s\<lparr>m_peaks := (m_peaks s)[i := p], m_colors := (m_colors s)[i := c]\<rparr>)"
      by auto
    let ?s1 = "s\<lparr>m_peaks := (m_peaks s)[i := p], m_colors := (m_colors s)[i := c]\<rparr>"
    have "\<exists>changed' s'. applyFftLoop env ?s1 (i + 1) ?b1 ch1 = Inr (changed', s')"
    proof (rule "1.IH" [OF True st refl refl])
      show "length (m_peaks ?s1) = length (m_colors ?s1)" using "1.prems"(1) by simp
      show "fftSize \<le> length (m_fft ?s1)" using "1.prems"(2) by simp
      show "length (m_colors ?s1) \<le> 511" using "1.prems"(3) by simp
      show "i + 1 < length (m_colors ?s1) \<longrightarrow> ?b1 \<le> 512 + (i + 1)" using ub by simp
    qed
    then show ?thesis unfolding applyFftLoop_step [OF True st] .
  qed
qed

lemma updateColors_total:
  assumes "length (m_peaks s) = length (m_colors s)" "length (m_colors s) \<le> 511"
    "fftSize \<le> length spectrum"
  shows "\<exists>out s'. updateColors env spectrum s = Inr (out, s')"
proof -
  let ?s0 = "s\<lparr>m_frames := m_frames s + 1, m_fft := spectrum\<rparr>"
  have "\<exists>changed' s'. applyFftLoop env ?s0 0 0 False = Inr (changed', s')"
    by (rule applyFftLoop_total) (use assms in simp_all)
  then obtain changed s' where "applyFft env ?s0 = Inr (changed, s')"
    by (auto simp: applyFft_def)
  from updateColors_Inr [OF this] show ?thesis by blast
qed

section \<open>The ranges of the bucketizing loop\<close>

lemma bucket_InrD:
  assumes "bucket nan fft F n i b0 = Inr (peak, b1)"
  shows "b1 = upperBound nan F n i b0" "b0 < b1" "b1 < length fft"
    "peak = Max (insert 0 ((\<lambda>b. fft ! (1 + b)) ` {b0..<b1}))"
proof -
  let ?ub = "upperBound nan F n i b0"
  have lt: "b0 < ?ub" by (rule upperBound_gt)
  from assms have sc: "scanBins fft b0 ?ub 0 = Inr (peak, b1)" by (simp add: bucket_def)
  from scanBins_reads_in_range [OF sc lt] have inr: "?ub < length fft" .
  from scanBins_Inr [of b0 ?ub fft 0] lt inr sc
  have eq: "peak = Max (insert 0 ((\<lambda>b. fft ! (1 + b)) ` {b0..<?ub}))" "b1 = ?ub"
    by simp_all
  show "b1 = ?ub" by (rule eq(2))
  show "b0 < b1" using lt eq(2) by simp
  show "b1 < length fft" using inr eq(2) by simp
  show "peak = Max (insert 0 ((\<lambda>b. fft ! (1 + b)) ` {b0..<b1}))" using eq by simp
qed

lemma bucketize_done: "\<not> i < n \<Longrightarrow> bucketize nan fft F n i b0 = Inr []"
  by (subst bucketize.simps) simp

lemma bucketize_cases:
  assumes "bucketize nan fft F n i b0 = Inr rs"
  obtains (last) "\<not> i < n" "rs = []"
  | (iter) peak b1 rs' where "i < n" "bucket nan fft F n i b0 = Inr (peak, b1)"
      "bucketize nan fft F n (i + 1) b1 = Inr rs'" "rs = (b0, b1, peak) # rs'"
proof (cases "i < n")
  case False
  with assms bucketize_done [OF False, of nan fft F b0] last show thesis by simp
next
  case True
  from assms True obtain peak b1 where
    bk: "bucket nan fft F n i b0 = Inr (peak, b1)"
    by (subst (asm) bucketize.simps) (auto split: sum.splits)
  from assms True bk obtain rs' where
    rest: "bucketize nan fft F n (i + 1) b1 = Inr rs'"
    by (subst (asm) bucketize.simps) (auto split: sum.splits)
  from assms True bk rest have "rs = (b0, b1, peak) # rs'"
    by (subst (asm) bucketize.simps) simp
  with True bk rest iter show thesis by blast
qed

lemma bucketize_shape:
  "bucketize nan fft F n i b0 = Inr rs \<Longrightarrow>
     length rs = n - i \<and> contiguousFrom b0 rs \<and>
     (\<forall>(lo, hi, raw) \<in> set rs. hi < length fft \<and>
        raw = Max (insert 0 ((\<lambda>b. fft ! (1 + b)) ` {lo..<hi})))"
proof (induction nan fft F n i b0 arbitrary: rs rule: bucketize.induct)
  case (1 nan fft F n i b0)
  from "1.prems" show ?case
  proof (cases rule: bucketize_cases)
    case last
    then show ?thesis by simp
  next
    case (iter peak b1 rs')
    note d = bucket_InrD [OF iter(2)]
    from "1.IH" [OF iter(1) iter(2) refl iter(3)] have
      ih: "length rs' = n - (i + 1)" "contiguousFrom b1 rs'"
        "\<forall>(lo, hi, raw) \<in> set rs'. hi < length fft \<and>
           raw = Max (insert 0 ((\<lambda>b. fft ! (1 + b)) ` {lo..<hi}))"
      by simp_all
    have l: "length rs = n - i" using ih(1) iter(1) iter(4) by simp
    have c: "contiguousFrom b0 rs" using ih(2) d(2) iter(4) by simp
    have m: "\<forall>(lo, hi, raw) \<in> set rs. hi < length fft \<and>
           raw = Max (insert 0 ((\<lambda>b. fft ! (1 + b)) ` {lo..<hi}))"
      using ih(3) d(3) d(4) iter(4) by simp
    from l c m show ?thesis by blast
  qed
qed

lemma Max_insert_nonneg:
  fixes S :: "real set"
  assumes "finite S" "S \<noteq> {}" "\<forall>x\<in>S. 0 \<le> x"
  shows "Max (insert 0 S) = Max S"
proof -
  have "0 \<le> Max S" using assms by (meson Max_ge_iff ex_in_conv)
  then show ?thesis using assms by (simp add: max_def)
qed

lemma bucketize_total:
  "n \<le> 511 \<Longrightarrow> fftSize \<le> length fft \<Longrightarrow> (i < n \<longrightarrow> b0 \<le> 512 + i) \<Longrightarrow>
     \<exists>rs. bucketize nan fft fftSize n i b0 = Inr rs"
proof (induction nan fft fftSize n i b0 rule: bucketize.induct)
  case (1 nan fft n i b0)
  show ?case
  proof (cases "i < n")
    case False
    then show ?thesis by (simp add: bucketize_done)
  next
    case True
    let ?b1 = "upperBound nan fftSize n i b0"
    have b0: "b0 \<le> 512 + i" using True "1.prems"(3) by simp
    have ub: "?b1 \<le> 1023 \<and> (i + 1 < n \<longrightarrow> ?b1 \<le> 512 + (i + 1))"
    proof (cases "2 \<le> n")
      case True
      from upperBound_small [OF True \<open>i < n\<close> b0, of nan fftSize] "1.prems"(1) \<open>i < n\<close>
      show ?thesis by simp
    next
      case False
      with \<open>i < n\<close> have "i = 0" "\<not> i + 1 < n" by simp_all
      with b0 upperBound_le [of nan fftSize n i b0] show ?thesis
        by (simp add: fftSize_def)
    qed
    then have inr: "?b1 < length fft" using "1.prems"(2) by (simp add: fftSize_def)
    have "b0 \<le> ?b1" using upperBound_gt [of b0 nan fftSize n i] by simp
    from scanBins_Inr [OF this, of fft 0] inr obtain peak where
      bk: "bucket nan fft fftSize n i b0 = Inr (peak, ?b1)"
      by (simp add: bucket_def)
    have "\<exists>rs. bucketize nan fft fftSize n (i + 1) ?b1 = Inr rs"
    proof (rule "1.hyps" [OF True bk refl])
      show "n \<le> 511" by (rule "1.prems"(1))
      show "fftSize \<le> length fft" by (rule "1.prems"(2))
      show "i + 1 < n \<longrightarrow> ?b1 \<le> 512 + (i + 1)" using ub by simp
    qed
    then obtain rs where "bucketize nan fft fftSize n (i + 1) ?b1 = Inr rs" ..
    with True bk have "bucketize nan fft fftSize n i b0 = Inr ((b0, ?b1, peak) # rs)"
      by (subst bucketize.simps) simp
    then show ?thesis ..
  qed
qed

lemma contiguousFrom_le: "contiguousFrom b rs \<Longrightarrow> b \<le> endOf b rs"
proof (induction rs arbitrary: b)
  case Nil
  then show ?case by simp
next
  case (Cons r rs)
  obtain lo hi raw where r: "r = (lo, hi, raw)" by (cases r)
  from Cons.prems r have "lo = b" "lo < hi" "contiguousFrom hi rs" by simp_all
  with Cons.IH [of hi] r show ?case by simp
qed

lemma contiguousFrom_union:
  "contiguousFrom b rs \<Longrightarrow> (\<Union>(lo, hi, raw) \<in> set rs. {lo..<hi}) = {b..<endOf b rs}"
proof (induction rs arbitrary: b)
  case Nil
  then show ?case by simp
next
  case (Cons r rs)
  obtain lo hi raw where r: "r = (lo, hi, raw)" by (cases r)
  from Cons.prems r have c: "lo = b" "lo < hi" "contiguousFrom hi rs" by simp_all
  have "hi \<le> endOf hi rs" using c(3) by (rule contiguousFrom_le)
  then have "{b..<hi} \<union> {hi..<endOf hi rs} = {b..<endOf hi rs}"
    using c by (simp add: ivl_disj_un_two)
  then show ?case using Cons.IH [OF c(3)] r c by simp
qed

lemma applyFftLoop_bucketize:
  "applyFftLoop env s i b0 changed = Inr (changed', s') \<Longrightarrow>
     \<exists>rs. bucketize (nanToSize env) (m_fft s) fftSize (length (m_colors s)) i b0 = Inr rs \<and>
       (\<forall>k<length rs. m_peaks s' ! (i + k) =
          updatePeak (m_frames s) (m_peaks s ! (i + k)) (scaleVal env (snd (snd (rs ! k)))))"
proof (induction env s i b0 changed rule: applyFftLoop.induct)
  case (1 env s i b0 changed)
  from "1.prems"(1) show ?case
  proof (cases rule: applyFftLoop_cases)
    case last
    then show ?thesis by (simp add: bucketize_done)
  next
    case (iter b1 ch1 s1)
    let ?n = "length (m_colors s)"
    from iter(2) obtain peak p val where
      bk: "bucket (nanToSize env) (m_fft s) fftSize ?n i b0 = Inr (peak, b1)" and
      i: "i < length (m_peaks s)" and
      tp: "trackPeak (m_frames s) (m_peaks s ! i) (scaleVal env peak) = Inr (p, val)" and
      s1: "s1 = s\<lparr>m_peaks := (m_peaks s)[i := p],
            m_colors := (m_colors s)[i := (if isLedEnabled env i then channelColor env s val else 0)]\<rparr>"
      by (rule channelStepE)
    have f1: "m_fft s1 = m_fft s" "length (m_colors s1) = ?n" "m_frames s1 = m_frames s"
      using s1 by simp_all
    have p1: "\<And>k. m_peaks s1 ! (i + 1 + k) = m_peaks s ! (i + 1 + k)"
      using s1 by simp
    from "1.IH" [OF iter(1) iter(2) refl refl iter(3)] obtain rs' where
      rest: "bucketize (nanToSize env) (m_fft s) fftSize ?n (i + 1) b1 = Inr rs'" and
      pk: "\<forall>k<length rs'. m_peaks s' ! (i + 1 + k) =
          updatePeak (m_frames s) (m_peaks s ! (i + 1 + k)) (scaleVal env (snd (snd (rs' ! k))))"
      unfolding f1 p1 by blast
    from applyFftLoop_frame [OF iter(3)] obtain ps cs where
      s': "s' = s1\<lparr>m_peaks := ps, m_colors := cs\<rparr>" and
      keep: "\<forall>j<i + 1. ps ! j = m_peaks s1 ! j \<and> cs ! j = m_colors s1 ! j"
      by blast
    have pi: "m_peaks s' ! i = updatePeak (m_frames s) (m_peaks s ! i) (scaleVal env peak)"
      using keep s' s1 i trackPeak_fst [OF tp] by simp
    let ?rs = "(b0, b1, peak) # rs'"
    have bz: "bucketize (nanToSize env) (m_fft s) fftSize ?n i b0 = Inr ?rs"
      using iter(1) bk rest by (subst bucketize.simps) simp
    have "\<forall>k<length ?rs. m_peaks s' ! (i + k) =
          updatePeak (m_frames s) (m_peaks s ! (i + k)) (scaleVal env (snd (snd (?rs ! k))))"
    proof (intro allI impI)
      fix k assume k: "k < length ?rs"
      show "m_peaks s' ! (i + k) =
          updatePeak (m_frames s) (m_peaks s ! (i + k)) (scaleVal env (snd (snd (?rs ! k))))"
      proof (cases k)
        case 0
        then show ?thesis using pi by simp
      next
        case (Suc k')
        with k have "k' < length rs'" by simp
        with pk have "m_peaks s' ! (i + 1 + k') =
          updatePeak (m_frames s) (m_peaks s ! (i + 1 + k')) (scaleVal env (snd (snd (rs' ! k'))))"
          by blast
        then show ?thesis using Suc by simp
      qed
    qed
    with bz show ?thesis by blast
  qed
qed

lemma contiguousFrom_width:
  "contiguousFrom b rs \<Longrightarrow> \<forall>(lo, hi, raw) \<in> set rs. lo < hi"
proof (induction rs arbitrary: b)
  case Nil
  then show ?case by simp
next
  case (Cons r rs)
  obtain lo hi raw where r: "r = (lo, hi, raw)" by (cases r)
  from Cons.prems r have c: "lo < hi" "contiguousFrom hi rs" by simp_all
  from Cons.IH [OF c(2)] c(1) r show ?case by simp
qed

section \<open>Where the ranges end\<close>


lemma pow_chord:
  fixes x :: real
  assumes x: "1 \<le> x" and jm: "j \<le> m" and m: "0 < m" and top: "x ^ m = c"
  shows "real m * (c - x ^ j) \<ge> (c - 1) * real (m - j)"
proof -
  let ?D = "x ^ j * (x - 1)"
  have D0: "0 \<le> ?D" using x by simp
  have b1: "1 + real (m - j) * (x - 1) \<le> (1 + (x - 1)) ^ (m - j)"
    by (rule Bernoulli_inequality) (use x in simp)
  have "x ^ m = x ^ j * x ^ (m - j)"
    using jm by (simp add: power_add [symmetric])
  moreover have "x ^ j * (1 + real (m - j) * (x - 1)) \<le> x ^ j * x ^ (m - j)"
    using b1 x by (intro mult_left_mono) simp_all
  ultimately have A: "real (m - j) * ?D \<le> c - x ^ j"
    using top by (simp add: algebra_simps)
  have xpos: "0 < x" using x by simp
  have b2: "1 + real j * (1 / x - 1) \<le> (1 + (1 / x - 1)) ^ j"
    by (rule Bernoulli_inequality) (use xpos in simp)
  have "x ^ j * (1 + real j * (1 / x - 1)) \<le> x ^ j * (1 / x) ^ j"
    using b2 xpos by (intro mult_left_mono) simp_all
  moreover have "x ^ j * (1 / x) ^ j = 1"
    using xpos by (simp add: power_mult_distrib [symmetric])
  ultimately have "x ^ j + real j * (x ^ j * (1 / x - 1)) \<le> 1"
    by (simp add: algebra_simps)
  then have low: "x ^ j - 1 \<le> real j * (x ^ j * (1 - 1 / x))"
    by (simp add: algebra_simps)
  have "(x - 1) * (1 / x) \<le> (x - 1) * 1"
    using x by (intro mult_left_mono) (simp_all add: field_simps)
  then have "1 - 1 / x \<le> x - 1"
    using xpos by (simp add: field_simps)
  then have dle: "x ^ j * (1 - 1 / x) \<le> ?D"
    by (rule mult_left_mono) (use xpos in simp)
  have "real j * (x ^ j * (1 - 1 / x)) \<le> real j * ?D"
    by (rule mult_left_mono [OF dle]) simp
  with low have B: "x ^ j - 1 \<le> real j * ?D" by linarith
  have "real (m - j) * (x ^ j - 1) \<le> real (m - j) * (real j * ?D)"
    using B by (intro mult_left_mono) simp_all
  also have "\<dots> = real j * (real (m - j) * ?D)" by simp
  also have "\<dots> \<le> real j * (c - x ^ j)"
    using A by (intro mult_left_mono) simp_all
  finally have key: "real (m - j) * (x ^ j - 1) \<le> real j * (c - x ^ j)" .
  have m_eq: "real m = real j + real (m - j)" using jm by simp
  have fin: "\<And>k jr a b :: real. k * b \<le> jr * a \<Longrightarrow> (a + b) * k \<le> (jr + k) * a"
    by (simp add: algebra_simps)
  have "(c - x ^ j + (x ^ j - 1)) * real (m - j) \<le> (real j + real (m - j)) * (c - x ^ j)"
    by (rule fin) (fact key)
  moreover have "c - x ^ j + (x ^ j - 1) = c - 1" by simp
  ultimately show ?thesis unfolding m_eq by (simp only:)
qed

lemma powBound_floor:
  "n \<noteq> 1 \<Longrightarrow> powBound nan n i = nat \<lfloor>2 powr (real (i * 9) / real (n - 1))\<rfloor>"
proof -
  have "(0::real) \<le> 2 powr (real i * 9 / real (n - 1))" by simp
  then have "toInt (2 powr (real i * 9 / real (n - 1))) = \<lfloor>2 powr (real i * 9 / real (n - 1))\<rfloor>"
    unfolding toInt_def by (simp only: not_less [symmetric] if_False)
  moreover assume "n \<noteq> 1"
  ultimately show ?thesis by (simp add: powBound_def)
qed


lemma powBound_last: "2 \<le> n \<Longrightarrow> powBound nan n (n - 1) = 512"
proof -
  assume n: "2 \<le> n"
  define m where "m = n - 1"
  have m: "0 < m" "n \<noteq> 1" using n by (simp_all add: m_def)
  have "real (m * 9) / real m = 9" using m(1) by simp
  then have "2 powr (real (m * 9) / real m) = (512::real)" by simp
  then have "nat \<lfloor>2 powr (real (m * 9) / real m)\<rfloor> = 512" by simp
  then show ?thesis using powBound_floor [OF m(2), of nan "n - 1"] unfolding m_def by simp
qed

lemma powBound_chord:
  assumes m: "1 \<le> m" "m \<le> 511" and j: "j < m"
  shows "powBound nan (m + 1) j + (m - j) \<le> 512"
proof -
  define x :: real where "x = 2 powr (9 / real m)"
  have x1: "1 \<le> x" unfolding x_def by (rule ge_one_powr_ge_zero) simp_all
  have pw: "\<And>k. x ^ k = 2 powr (real k * 9 / real m)"
  proof -
    fix k
    have "x ^ k = x powr real k" using x1 by (simp add: powr_realpow)
    also have "\<dots> = 2 powr (9 / real m * real k)" unfolding x_def by (simp add: powr_powr)
    finally show "x ^ k = 2 powr (real k * 9 / real m)" by (simp add: mult.commute)
  qed
  have top: "x ^ m = 512"
  proof -
    have "real m * 9 / real m = 9" using m by simp
    then show ?thesis unfolding pw by simp
  qed
  have "0 < m" "j \<le> m" using m j by simp_all
  from pow_chord [OF x1 this(2) this(1) top]
  have ch: "511 * real (m - j) \<le> real m * (512 - x ^ j)" by simp
  have "real m * real (m - j) \<le> 511 * real (m - j)"
    using m by (intro mult_right_mono) simp_all
  with ch have "real m * real (m - j) \<le> real m * (512 - x ^ j)" by linarith
  then have "real (m - j) \<le> 512 - x ^ j"
    using m by (simp add: mult_le_cancel_left_pos)
  then have xj: "x ^ j \<le> 512 - real (m - j)" by linarith
  have "\<lfloor>x ^ j\<rfloor> \<le> 512 - int (m - j)"
  proof -
    have "x ^ j \<le> real_of_int (512 - int (m - j))" using xj by simp
    then have "\<lfloor>x ^ j\<rfloor> \<le> \<lfloor>real_of_int (512 - int (m - j))\<rfloor>" by (rule floor_mono)
    then show ?thesis by (simp only: floor_of_int)
  qed
  moreover have "powBound nan (m + 1) j = nat \<lfloor>x ^ j\<rfloor>"
    using m powBound_floor [of "m + 1" nan j] by (simp add: pw mult.commute)
  moreover have "0 \<le> \<lfloor>x ^ j\<rfloor>" using x1 by simp
  ultimately show ?thesis by linarith
qed

lemma upperBound_capped:
  "upperBound nan F n i b0 = (if cappedBound nan F n i \<le> b0 then b0 + 1 else cappedBound nan F n i)"
  by (simp add: upperBound_def Let_def)

lemma bucketize_end_ge:
  "2 \<le> n \<Longrightarrow> i < n \<Longrightarrow> bucketize nan fft F n i b0 = Inr rs \<Longrightarrow> min (F - 1) 512 \<le> endOf b0 rs"
proof (induction nan fft F n i b0 arbitrary: rs rule: bucketize.induct)
  case (1 nan fft F n i b0)
  from "1.prems"(3) show ?case
  proof (cases rule: bucketize_cases)
    case last
    with "1.prems" show ?thesis by simp
  next
    case (iter peak b1 rs')
    have e: "endOf b0 rs = endOf b1 rs'" using iter(4) by simp
    show ?thesis
    proof (cases "i + 1 < n")
      case True
      from "1.IH" [OF iter(1) iter(2) refl "1.prems"(1) True iter(3)] e show ?thesis by simp
    next
      case False
      with iter(1) have i: "i = n - 1" by simp
      from False iter(3) have "rs' = []" by (simp add: bucketize_done)
      then have "endOf b0 rs = b1" using e by simp
      moreover have "b1 = upperBound nan F n i b0" using bucket_InrD(1) [OF iter(2)] .
      moreover have "cappedBound nan F n i = min (F - 1) 512"
        using powBound_last [OF "1.prems"(1), of nan] i by (simp add: cappedBound_def Let_def min_def)
      ultimately show ?thesis by (simp add: upperBound_capped)
    qed
  qed
qed

lemma bucketize_end_exact:
  "2 \<le> n \<Longrightarrow> n \<le> 512 \<Longrightarrow> 513 \<le> F \<Longrightarrow> i < n \<Longrightarrow> b0 + (n - 1 - i) \<le> 511 \<Longrightarrow>
     bucketize nan fft F n i b0 = Inr rs \<Longrightarrow> endOf b0 rs = 512"
proof (induction nan fft F n i b0 arbitrary: rs rule: bucketize.induct)
  case (1 nan fft F n i b0)
  from "1.prems"(6) show ?case
  proof (cases rule: bucketize_cases)
    case last
    with "1.prems" show ?thesis by simp
  next
    case (iter peak b1 rs')
    have e: "endOf b0 rs = endOf b1 rs'" using iter(4) by simp
    have b1: "b1 = upperBound nan F n i b0" using bucket_InrD(1) [OF iter(2)] .
    show ?thesis
    proof (cases "i + 1 < n")
      case True
      have "powBound nan (n - 1 + 1) i + (n - 1 - i) \<le> 512"
        by (rule powBound_chord) (use "1.prems" True in simp_all)
      then have pb: "powBound nan n i + (n - 1 - i) \<le> 512" using "1.prems"(1) by simp
      then have cb: "cappedBound nan F n i + (n - 1 - i) \<le> 512"
        by (simp add: cappedBound_def Let_def)
      have "b1 + (n - 1 - (i + 1)) \<le> 511"
      proof (cases "cappedBound nan F n i \<le> b0")
        case le: True
        then have "b1 = b0 + 1" unfolding b1 upperBound_capped by simp
        then show ?thesis using "1.prems"(5) True by arith
      next
        case gt: False
        then have "b1 = cappedBound nan F n i" unfolding b1 upperBound_capped by simp
        then show ?thesis using cb True by arith
      qed
      from "1.IH" [OF iter(1) iter(2) refl "1.prems"(1) "1.prems"(2) "1.prems"(3) True this iter(3)] e
      show ?thesis by simp
    next
      case False
      with iter(1) have i: "i = n - 1" by simp
      from False iter(3) have "rs' = []" by (simp add: bucketize_done)
      then have "endOf b0 rs = b1" using e by simp
      moreover have "cappedBound nan F n i = 512"
        using powBound_last [OF "1.prems"(1), of nan] i "1.prems"(3)
        by (simp add: cappedBound_def Let_def)
      moreover have "b0 \<le> 511" using "1.prems"(5) by simp
      ultimately show ?thesis unfolding b1 upperBound_capped by simp
    qed
  qed
qed



section \<open>Evaluation at concrete inputs\<close>

lemma scanBins_replicate:
  "b1 < n \<Longrightarrow> b0 \<le> b1 \<Longrightarrow> scanBins (replicate n c) b0 b1 peak = Inr (if b0 < b1 then max peak c else peak, b1)"
proof (induction "replicate n c" b0 b1 peak rule: scanBins.induct)
  case (1 b0 b1 peak)
  show ?case
  proof (cases "b0 < b1")
    case True
    then have "scanBins (replicate n c) (b0 + 1) b1 (if peak < replicate n c ! (1 + b0) then replicate n c ! (1 + b0) else peak)
      = Inr (if b0 + 1 < b1 then max (if peak < replicate n c ! (1 + b0) then replicate n c ! (1 + b0) else peak) c else (if peak < replicate n c ! (1 + b0) then replicate n c ! (1 + b0) else peak), b1)"
      using 1 by simp
    then show ?thesis using True "1.prems"
      by (subst scanBins.simps) (auto simp: max_def)
  next
    case False
    then show ?thesis using "1.prems" by (subst scanBins.simps) simp
  qed
qed

lemma powBound_2_0: "powBound nan 2 0 = 1"
  by (simp add: powBound_def toInt_def)

lemma powBound_2_1: "powBound nan 2 (Suc 0) = 512"
  by (simp add: powBound_def toInt_def)

lemma bucket_replicate_0: "bucket nan (replicate 1024 c) 1024 (Suc (Suc 0)) 0 0 = Inr (max 0 c, Suc 0)"
  using powBound_2_0 [of nan] by (simp add: bucket_def upperBound_def cappedBound_def scanBins_replicate numeral_2_eq_2)
lemma bucket_replicate_1: "bucket nan (replicate 1024 c) 1024 (Suc (Suc 0)) (Suc 0) (Suc 0) = Inr (max 0 c, 512)"
  using powBound_2_1 [of nan] by (simp add: bucket_def upperBound_def cappedBound_def scanBins_replicate numeral_2_eq_2)

lemma scaleVal_0: "scaleToInt env = idealScale \<Longrightarrow> scaleVal env 0 = 0"
  by (simp add: scaleVal_def idealScale_def toInt_def specHeight_def)

lemma sqrt_256: "sqrt (1/256) = 1/16"
  by (rule real_sqrt_unique) (simp_all add: power2_eq_square)

lemma scaleVal_256: "scaleToInt env = idealScale \<Longrightarrow> scaleVal env (1/256) = 58"
  unfolding scaleVal_def by (simp add: idealScale_def sqrt_256 toInt_def specHeight_def)

lemma sqrt_64: "sqrt (1/64) = 1/8"
  by (rule real_sqrt_unique) (simp_all add: power2_eq_square)

lemma scaleVal_64: "scaleToInt env = idealScale \<Longrightarrow> scaleVal env (1/64) = 121"
  unfolding scaleVal_def by (simp add: idealScale_def sqrt_64 toInt_def specHeight_def)

lemmas evalDefs = updateColors_def updateFft_def applyFft_def applyFftLoop.simps channelStep_def
  bucket_replicate_0 bucket_replicate_1 trackPeak_def updatePeak_def Let_def fftSize_def
  specHeight_def signed_divide_int_def
lemmas colorDefs = channelColor_def black_def white_def idealMix_def specHeight_def toInt_def setComponent_def rgb_def

text \<open>
  Runs of the two-channel engine on a flat spectrum. A magnitude of 1/64 gives the value
  121 and a magnitude of 1/256 the value 58, which the renormalization turns into 479
  against a peak of 121 and into 483 against a peak of 120.
\<close>

lemma updateColors_silence: "updateColors exampleEnv (replicate 1024 0) exampleState =
  Inr ([UpdateLedsColors [0xFF000000, 0xFF000000]], exampleState\<lparr>m_frames := 1, m_colors := [0xFF000000, 0xFF000000]\<rparr>)"
  by (simp add: exampleState_def exampleEnv_def evalDefs scaleVal_0 colorDefs)

lemma updateColors_loud: "updateColors exampleEnv (replicate 1024 (1/64))
     (exampleState\<lparr>m_frames := 2\<rparr>) =
  Inr ([UpdateLedsColors [0xFF1E1E1E, 0xFF1E1E1E]], exampleState\<lparr>m_frames := 3, m_peaks := [121, 121], m_colors := [0xFF1E1E1E, 0xFF1E1E1E], m_fft := replicate 1024 (1/64)\<rparr>)"
  by (simp add: exampleState_def exampleEnv_def evalDefs scaleVal_64 colorDefs)


lemma updateColors_quieter: "updateColors exampleEnv (replicate 1024 (1/256))
     (exampleState\<lparr>m_frames := 3, m_peaks := [121, 121], m_colors := [0xFF1E1E1E, 0xFF1E1E1E], m_fft := replicate 1024 (1/64)\<rparr>) =
  Inr ([UpdateLedsColors [0xFF7A7A7A, 0xFF7A7A7A]], exampleState\<lparr>m_frames := 4,  m_peaks := [121, 121], m_colors := [0xFF7A7A7A, 0xFF7A7A7A], m_fft := replicate 1024 (1/256)\<rparr>)"
  by (simp add: exampleState_def exampleEnv_def evalDefs scaleVal_256 colorDefs)

lemma updateColors_decay: "updateColors exampleEnv (replicate 1024 (1/256))
     (exampleState\<lparr>m_frames := 4,  m_peaks := [121, 121], m_colors := [0xFF7A7A7A, 0xFF7A7A7A], m_fft := replicate 1024 (1/256)\<rparr>) =
  Inr ([UpdateLedsColors [0xFF7B7B7B, 0xFF7B7B7B]], exampleState\<lparr>m_frames := 5,  m_peaks := [120, 120], m_colors := [0xFF7B7B7B, 0xFF7B7B7B], m_fft := replicate 1024 (1/256)\<rparr>)"
  by (simp add: exampleState_def exampleEnv_def evalDefs scaleVal_256 colorDefs)

lemma applyFft_decay:
  "applyFft exampleEnv
     (exampleState\<lparr>m_frames := 5, m_peaks := [121, 121], m_colors := [0xFF7A7A7A, 0xFF7A7A7A],
        m_fft := replicate 1024 (1/256)\<rparr>) =
   Inr (True, exampleState\<lparr>m_frames := 5, m_peaks := [120, 120],
        m_colors := [0xFF7B7B7B, 0xFF7B7B7B], m_fft := replicate 1024 (1/256)\<rparr>)"
  by (simp add: exampleState_def exampleEnv_def evalDefs scaleVal_256 colorDefs)

lemma bucketize_small:
  "bucketize nan [0, 3, 1, 2] 4 2 0 0 = Inr [(0, 1, 3), (1, 3, 2)]"
  using powBound_2_0 [of nan] powBound_2_1 [of nan]
  by (simp add: bucketize.simps bucket_def upperBound_def cappedBound_def scanBins.simps)

lemma applyFft_disabled:
  "applyFft (exampleEnv\<lparr>isLedEnabled := (\<lambda>i. i = 0)\<rparr>)
       (exampleState\<lparr>m_frames := 2, m_colors := [0xFF000000, 0xFF000000]\<rparr>) =
     Inr (False, exampleState\<lparr>m_frames := 2, m_colors := [0xFF000000, 0]\<rparr>)"
  by (simp add: exampleState_def exampleEnv_def evalDefs scaleVal_0 colorDefs)

lemma updateColors_disabled:
  "updateColors (exampleEnv\<lparr>isLedEnabled := (\<lambda>i. i = 0)\<rparr>) (replicate 1024 0)
       (exampleState\<lparr>m_frames := 1, m_colors := [0xFF000000, 0xFF000000]\<rparr>) =
     Inr ([], exampleState\<lparr>m_frames := 2, m_colors := [0xFF000000, 0]\<rparr>)"
  by (simp add: exampleState_def exampleEnv_def evalDefs scaleVal_0 colorDefs)

lemma scaleVal_example_256: "scaleVal exampleEnv (1/256) = 58"
  by (rule scaleVal_256) (simp add: exampleEnv_def)

lemma bucketize_flat:
  "bucketize nan (replicate 1024 c) 1024 2 0 0 = Inr [(0, 1, max 0 c), (1, 512, max 0 c)]"
  by (simp add: bucketize.simps bucket_replicate_0 bucket_replicate_1 numeral_2_eq_2)

section \<open>The renormalization never divides by zero\<close>

text \<open>
  Claim C2. For every stored peak, every frame number and every value \<open>val \<ge> 0\<close>, the
  peak step does not end in a division by zero, and whenever the branch condition
  \<open>val < m_peaks[i] - 5\<close> holds the divisor \<open>m_peaks[i]\<close> is at least 6. The value that
  applyFft passes is never negative, so no call of applyFft divides by zero.
\<close>

theorem peak_division_guarded:
  "0 \<le> val \<Longrightarrow>
     trackPeak frames p val \<noteq> Inl DivisionByZero \<and>
     (val < updatePeak frames p val - 5 \<longrightarrow> 6 \<le> updatePeak frames p val) \<and>
     applyFft env s \<noteq> Inl DivisionByZero"
  using trackPeak_not_div [of val frames p] applyFftLoop_not_div [of env s 0 0 False]
  by (auto simp: applyFft_def)

theorem peak_division_guarded_witness:
  "(0::int) \<le> 58 \<and>
   trackPeak 1 121 58 \<noteq> Inl DivisionByZero \<and>
   (58::int) < updatePeak 1 121 58 - 5 \<and> (6::int) \<le> updatePeak 1 121 58 \<and>
   trackPeak 1 121 58 = Inr (121, 479) \<and>
   applyFft exampleEnv exampleState \<noteq> Inl DivisionByZero"
  using peak_division_guarded [of 58 1 121 exampleEnv exampleState]
  by (simp add: trackPeak_def updatePeak_def Let_def specHeight_def signed_divide_int_def)

section \<open>Stored peaks stay in range\<close>

text \<open>
  Claim C6. Every stored peak is at least 0 and at most \<open>specHeight\<close> (1000): initColors
  establishes this, and a call of applyFft or updateColors that starts with it ends with
  it.
\<close>

theorem peaks_stay_in_range:
  "peaksInRange (initColors n s0) \<and>
   (peaksInRange s \<and> applyFft env s = Inr (changed, s') \<longrightarrow> peaksInRange s') \<and>
   (peaksInRange s \<and> updateColors env spectrum s = Inr (out, s'') \<longrightarrow> peaksInRange s'')"
  using initColors_peaksInRange applyFft_peaksInRange updateColors_peaksInRange by blast

theorem peaks_stay_in_range_witness:
  "peaksInRange (initColors 2 exampleState) \<and>
   peaksInRange (exampleState\<lparr>m_frames := 5, m_peaks := [121, 121],
        m_colors := [0xFF7A7A7A, 0xFF7A7A7A], m_fft := replicate 1024 (1/256)\<rparr>) \<and>
   applyFft exampleEnv
     (exampleState\<lparr>m_frames := 5, m_peaks := [121, 121], m_colors := [0xFF7A7A7A, 0xFF7A7A7A],
        m_fft := replicate 1024 (1/256)\<rparr>) =
     Inr (True, exampleState\<lparr>m_frames := 5, m_peaks := [120, 120],
        m_colors := [0xFF7B7B7B, 0xFF7B7B7B], m_fft := replicate 1024 (1/256)\<rparr>) \<and>
   peaksInRange (exampleState\<lparr>m_frames := 4,  m_peaks := [121, 121],
        m_colors := [0xFF7A7A7A, 0xFF7A7A7A], m_fft := replicate 1024 (1/256)\<rparr>) \<and>
   updateColors exampleEnv (replicate 1024 (1/256))
     (exampleState\<lparr>m_frames := 4,  m_peaks := [121, 121], m_colors := [0xFF7A7A7A, 0xFF7A7A7A],
        m_fft := replicate 1024 (1/256)\<rparr>) =
     Inr ([UpdateLedsColors [0xFF7B7B7B, 0xFF7B7B7B]],
       exampleState\<lparr>m_frames := 5,  m_peaks := [120, 120], m_colors := [0xFF7B7B7B, 0xFF7B7B7B],
        m_fft := replicate 1024 (1/256)\<rparr>) \<and>
   peaksInRange (exampleState\<lparr>m_frames := 5, m_peaks := [120, 120],
        m_colors := [0xFF7B7B7B, 0xFF7B7B7B], m_fft := replicate 1024 (1/256)\<rparr>)"
  using peaks_stay_in_range [of 2 exampleState
      "exampleState\<lparr>m_frames := 5, m_peaks := [121, 121], m_colors := [0xFF7A7A7A, 0xFF7A7A7A],
        m_fft := replicate 1024 (1/256)\<rparr>" exampleEnv True
      "exampleState\<lparr>m_frames := 5, m_peaks := [120, 120],
        m_colors := [0xFF7B7B7B, 0xFF7B7B7B], m_fft := replicate 1024 (1/256)\<rparr>"]
    applyFft_decay updateColors_decay
  by (simp add: peaksInRange_def specHeight_def)

section \<open>reset\<close>

text \<open>
  Claim C10. reset leaves as many colours as there were, all 0, and as many peaks as there
  were colours, all 0: for a state of the class, where the two sequences have one length,
  both lengths are kept. The generator is reset and no other member changes.
\<close>

theorem reset_keeps_channel_count:
  "m_colors (reset env s) = replicate (length (m_colors s)) 0 \<and>
   m_peaks (reset env s) = replicate (length (m_colors s)) 0 \<and>
   length (m_colors (reset env s)) = length (m_colors s) \<and>
   (length (m_peaks s) = length (m_colors s) \<longrightarrow>
      length (m_peaks (reset env s)) = length (m_peaks s)) \<and>
   m_generator (reset env s) = generatorReset env (m_generator s) \<and>
   m_device (reset env s) = m_device s \<and>
   m_minColor (reset env s) = m_minColor s \<and>
   m_maxColor (reset env s) = m_maxColor s \<and>
   m_isLiquidMode (reset env s) = m_isLiquidMode s \<and>
   m_isSendDataOnlyIfColorsChanged (reset env s) = m_isSendDataOnlyIfColorsChanged s \<and>
   m_frames (reset env s) = m_frames s \<and>
   m_isEnabled (reset env s) = m_isEnabled s \<and>
   m_isInited (reset env s) = m_isInited s \<and>
   m_fft (reset env s) = m_fft s"
  by (simp add: reset_def initColors_def Let_def)

theorem reset_keeps_channel_count_witness:
  "length (m_peaks (exampleState\<lparr>m_peaks := [121, 120], m_colors := [0xFF7A7A7A, 0xFF7B7B7B]\<rparr>)) =
     length (m_colors (exampleState\<lparr>m_peaks := [121, 120], m_colors := [0xFF7A7A7A, 0xFF7B7B7B]\<rparr>)) \<and>
   m_colors (reset exampleEnv (exampleState\<lparr>m_peaks := [121, 120], m_colors := [0xFF7A7A7A, 0xFF7B7B7B]\<rparr>)) = [0, 0] \<and>
   m_peaks (reset exampleEnv (exampleState\<lparr>m_peaks := [121, 120], m_colors := [0xFF7A7A7A, 0xFF7B7B7B]\<rparr>)) = [0, 0] \<and>
   length (m_peaks (reset exampleEnv (exampleState\<lparr>m_peaks := [121, 120], m_colors := [0xFF7A7A7A, 0xFF7B7B7B]\<rparr>))) = 2"
  using reset_keeps_channel_count [of exampleEnv
      "exampleState\<lparr>m_peaks := [121, 120], m_colors := [0xFF7A7A7A, 0xFF7B7B7B]\<rparr>"]
  by (simp add: exampleState_def numeral_2_eq_2)

section \<open>updateColors without channels\<close>




section \<open>requestDeviceList\<close>

text \<open>
  Claim C8, as stated: when initialization fails the caller is sent an empty device list
  with no recommended index. It fails: the method returns before the signal, so nothing
  is emitted.
\<close>

theorem device_list_not_reported_on_failure:
  "requestDeviceList exampleEnv exampleState = ([], exampleState\<lparr>m_isEnabled := False\<rparr>) \<and>
   fst (requestDeviceList exampleEnv exampleState) \<noteq> [DeviceList [] (- 1)]"
  by (simp add: requestDeviceList_def exampleEnv_def exampleState_def)

text \<open>
  Claim C8, amended. When the engine is not initialized and initialization fails,
  requestDeviceList sets the engine disabled and emits nothing. Otherwise it emits one
  device list signal carrying what the backend put into the empty list and the
  recommended index \<open>-1\<close> it was given, and leaves the enabled flag alone.
\<close>

theorem requestDeviceList_outcomes:
  "(\<not> m_isInited s \<and> \<not> fst (init env s) \<longrightarrow>
      fst (requestDeviceList env s) = [] \<and>
      snd (requestDeviceList env s) = (snd (init env s))\<lparr>m_isEnabled := False\<rparr>) \<and>
   (\<not> m_isInited s \<and> fst (init env s) \<longrightarrow>
      fst (requestDeviceList env s) =
        [DeviceList (fst (populateDeviceList env (snd (init env s)) [] (- 1)))
                    (snd (populateDeviceList env (snd (init env s)) [] (- 1)))] \<and>
      snd (requestDeviceList env s) = snd (init env s)) \<and>
   (m_isInited s \<longrightarrow>
      fst (requestDeviceList env s) =
        [DeviceList (fst (populateDeviceList env s [] (- 1)))
                    (snd (populateDeviceList env s [] (- 1)))] \<and>
      snd (requestDeviceList env s) = s)"
  by (auto simp: requestDeviceList_def Let_def split: prod.splits)

theorem requestDeviceList_outcomes_witness:
  "\<not> m_isInited exampleState \<and> \<not> fst (init exampleEnv exampleState) \<and>
   requestDeviceList exampleEnv exampleState = ([], exampleState\<lparr>m_isEnabled := False\<rparr>) \<and>
   fst (init (exampleEnv\<lparr>init := (\<lambda>s. (True, s\<lparr>m_isInited := True\<rparr>)),
          populateDeviceList := (\<lambda>s devices recommended. ([(''Speakers'', 7)], 0))\<rparr>) exampleState) \<and>
   requestDeviceList
     (exampleEnv\<lparr>init := (\<lambda>s. (True, s\<lparr>m_isInited := True\<rparr>)),
          populateDeviceList := (\<lambda>s devices recommended. ([(''Speakers'', 7)], 0))\<rparr>) exampleState =
     ([DeviceList [(''Speakers'', 7)] 0], exampleState\<lparr>m_isInited := True\<rparr>) \<and>
   m_isInited (exampleState\<lparr>m_isInited := True\<rparr>) \<and>
   requestDeviceList
     (exampleEnv\<lparr>populateDeviceList := (\<lambda>s devices recommended. ([(''Speakers'', 7)], 0))\<rparr>)
     (exampleState\<lparr>m_isInited := True\<rparr>) =
     ([DeviceList [(''Speakers'', 7)] 0], exampleState\<lparr>m_isInited := True\<rparr>)"
  using requestDeviceList_outcomes [of exampleState exampleEnv]
    requestDeviceList_outcomes [of exampleState
      "exampleEnv\<lparr>init := (\<lambda>s. (True, s\<lparr>m_isInited := True\<rparr>)),
          populateDeviceList := (\<lambda>s devices recommended. ([(''Speakers'', 7)], 0))\<rparr>"]
    requestDeviceList_outcomes [of "exampleState\<lparr>m_isInited := True\<rparr>"
      "exampleEnv\<lparr>populateDeviceList := (\<lambda>s devices recommended. ([(''Speakers'', 7)], 0))\<rparr>"]
  by (simp add: exampleEnv_def exampleState_def prod_eq_iff)

section \<open>The ranges of the channels\<close>

text \<open>
  Claim C1, as stated: for every channel count \<open>N \<ge> 1\<close> and FFT size \<open>F\<close> the ranges of
  the bucketizing loop cover the bins 1 to \<open>F - 1\<close>. It fails: with two channels and 1024
  bins the ranges are the offsets \<open>0..<1\<close> and \<open>1..<512\<close>, that is the bins 1 to 512, since
  the last boundary is \<open>2^9\<close>.
\<close>

theorem bucket_ranges_not_whole_spectrum:
  "bucketize 0 (replicate 1024 0) 1024 2 0 0 = Inr [(0, 1, 0), (1, 512, 0)] \<and>
   endOf 0 [(0, 1, 0), (1, 512, 0)] = 512 \<and>
   \<not> coversSpectrum 1024 [(0, 1, 0), (1, 512, 0)]"
  by (simp add: bucketize.simps bucket_replicate_0 bucket_replicate_1 numeral_2_eq_2
        coversSpectrum_def)

text \<open>
  Claim C1, amended. Whenever the bucketizing loop completes, for any channel count \<open>n\<close>,
  FFT size \<open>F\<close> and spectrum, it yields exactly \<open>n\<close> ranges; the first starts at bin 1,
  each starts where the one before ended, each holds at least one bin and lies inside the
  buffer, so together they cover the bins from 1 up to the last boundary and nothing
  else. For two channels or more the last boundary is at least \<open>min(F-1, 512)\<close>, and for 2
  to 512 channels and an FFT size of at least 513, as the 1024 of the code, it is 512: the
  ranges cover exactly the bins 1 to 512. The raw value of a channel is the larger of 0
  and the largest magnitude of its range, which is the largest magnitude when no
  magnitude is negative. With the FFT size of the code the loop completes for up to 511
  channels on a full buffer. The loop of applyFft goes through these ranges: the peak it
  stores for a channel is the one computed from the raw value of the channel's range.
\<close>

theorem bucketize_partition:
  "(bucketize nan fft F n 0 0 = Inr rs \<longrightarrow>
      length rs = n \<and> contiguousFrom 0 rs \<and>
      (\<Union>(lo, hi, raw) \<in> set rs. {lo..<hi}) = {0..<endOf 0 rs} \<and>
      (2 \<le> n \<longrightarrow> min (F - 1) 512 \<le> endOf 0 rs) \<and>
      (2 \<le> n \<and> n \<le> 512 \<and> 513 \<le> F \<longrightarrow> endOf 0 rs = 512) \<and>
      (\<forall>(lo, hi, raw) \<in> set rs. lo < hi \<and> hi < length fft \<and>
         raw = Max (insert 0 ((\<lambda>b. fft ! (1 + b)) ` {lo..<hi})) \<and>
         (magnitudesNonNegative fft \<longrightarrow> raw = rangeMax fft lo hi))) \<and>
   (n \<le> 511 \<and> fftSize \<le> length fft \<longrightarrow> (\<exists>rs'. bucketize nan fft fftSize n 0 0 = Inr rs')) \<and>
   (applyFft env s = Inr (changed, s') \<longrightarrow>
      (\<exists>rs'. bucketize (nanToSize env) (m_fft s) fftSize (length (m_colors s)) 0 0 = Inr rs' \<and>
         (\<forall>k<length rs'. m_peaks s' ! k =
            updatePeak (m_frames s) (m_peaks s ! k) (scaleVal env (snd (snd (rs' ! k)))))))"
proof (intro conjI impI)
  assume bz: "bucketize nan fft F n 0 0 = Inr rs"
  note sh = bucketize_shape [OF bz]
  show "length rs = n" using sh by simp
  show c: "contiguousFrom 0 rs" using sh by simp
  show "(\<Union>(lo, hi, raw) \<in> set rs. {lo..<hi}) = {0..<endOf 0 rs}"
    using c by (rule contiguousFrom_union)
  show "min (F - 1) 512 \<le> endOf 0 rs" if "2 \<le> n"
    using that bz by (intro bucketize_end_ge [of n 0 nan fft F 0 rs]) simp_all
  show "endOf 0 rs = 512" if "2 \<le> n \<and> n \<le> 512 \<and> 513 \<le> F"
    using that bz by (intro bucketize_end_exact [of n F 0 0 nan fft rs]) auto
  show "\<forall>(lo, hi, raw) \<in> set rs. lo < hi \<and> hi < length fft \<and>
         raw = Max (insert 0 ((\<lambda>b. fft ! (1 + b)) ` {lo..<hi})) \<and>
         (magnitudesNonNegative fft \<longrightarrow> raw = rangeMax fft lo hi)"
  proof (intro ballI, clarify, intro conjI impI)
    fix lo hi raw assume r: "(lo, hi, raw) \<in> set rs"
    show lt: "lo < hi" using contiguousFrom_width [OF c] r by blast
    show inr: "hi < length fft" using sh r by blast
    show mx: "raw = Max (insert 0 ((\<lambda>b. fft ! (1 + b)) ` {lo..<hi}))" using sh r by blast
    assume nn: "magnitudesNonNegative fft"
    have "\<forall>x \<in> (\<lambda>b. fft ! (1 + b)) ` {lo..<hi}. 0 \<le> x"
    proof
      fix x assume "x \<in> (\<lambda>b. fft ! (1 + b)) ` {lo..<hi}"
      then obtain b where b: "lo \<le> b" "b < hi" "x = fft ! (1 + b)" by auto
      then have "1 + b < length fft" using inr by simp
      then have "fft ! (1 + b) \<in> set fft" by (rule nth_mem)
      then show "0 \<le> x" using nn b by (simp add: magnitudesNonNegative_def)
    qed
    moreover have "(\<lambda>b. fft ! (1 + b)) ` {lo..<hi} \<noteq> {}" using lt by simp
    ultimately show "raw = rangeMax fft lo hi"
      unfolding mx rangeMax_def by (intro Max_insert_nonneg) simp_all
  qed
next
  assume "n \<le> 511 \<and> fftSize \<le> length fft"
  then show "\<exists>rs'. bucketize nan fft fftSize n 0 0 = Inr rs'"
    by (intro bucketize_total) simp_all
next
  assume "applyFft env s = Inr (changed, s')"
  from applyFftLoop_bucketize [OF this [unfolded applyFft_def]]
  show "\<exists>rs'. bucketize (nanToSize env) (m_fft s) fftSize (length (m_colors s)) 0 0 = Inr rs' \<and>
         (\<forall>k<length rs'. m_peaks s' ! k =
            updatePeak (m_frames s) (m_peaks s ! k) (scaleVal env (snd (snd (rs' ! k)))))"
    by simp
qed

theorem bucketize_partition_witness:
  "bucketize 0 [0, 3, 1, 2] 4 2 0 0 = Inr [(0, 1, 3), (1, 3, 2)] \<and>
   length [(0::nat, 1::nat, 3::real), (1, 3, 2)] = 2 \<and>
   contiguousFrom 0 [(0, 1, 3), (1, 3, 2)] \<and>
   endOf 0 [(0, 1, 3), (1, 3, 2)] = 3 \<and>
   magnitudesNonNegative [0, 3, 1, 2] \<and>
   rangeMax [0, 3, 1, 2] 0 1 = 3 \<and> rangeMax [0, 3, 1, 2] 1 3 = 2 \<and>
   (2::nat) \<le> 2 \<and> (2::nat) \<le> 512 \<and> (513::nat) \<le> 1024 \<and>
   bucketize 0 (replicate 1024 (1/256)) 1024 2 0 0 = Inr [(0, 1, 1/256), (1, 512, 1/256)] \<and>
   endOf 0 [(0, 1, 1/256), (1, 512, 1/256)] = 512 \<and>
   (2::nat) \<le> 511 \<and> fftSize \<le> length (replicate 1024 (1/256 :: real)) \<and>
   applyFft exampleEnv
     (exampleState\<lparr>m_frames := 5, m_peaks := [121, 121], m_colors := [0xFF7A7A7A, 0xFF7A7A7A],
        m_fft := replicate 1024 (1/256)\<rparr>) =
   Inr (True, exampleState\<lparr>m_frames := 5, m_peaks := [120, 120],
        m_colors := [0xFF7B7B7B, 0xFF7B7B7B], m_fft := replicate 1024 (1/256)\<rparr>) \<and>
   updatePeak 5 121 (scaleVal exampleEnv (1/256)) = 120"
  using bucketize_partition [of 0 "[0, 3, 1, 2]" 4 2 "[(0, 1, 3), (1, 3, 2)]" exampleEnv
      "exampleState\<lparr>m_frames := 5, m_peaks := [121, 121], m_colors := [0xFF7A7A7A, 0xFF7A7A7A],
        m_fft := replicate 1024 (1/256)\<rparr>" True
      "exampleState\<lparr>m_frames := 5, m_peaks := [120, 120],
        m_colors := [0xFF7B7B7B, 0xFF7B7B7B], m_fft := replicate 1024 (1/256)\<rparr>"]
    bucketize_partition [of 0 "replicate 1024 (1/256)" 1024 2
      "[(0, 1, 1/256), (1, 512, 1/256)]"]
    bucketize_small [of 0] bucketize_flat [of 0 "1/256"] applyFft_decay scaleVal_example_256
  by (simp add: magnitudesNonNegative_def fftSize_def updatePeak_def)

section \<open>The boundary of a channel\<close>




section \<open>Send only on change\<close>

text \<open>
  Claim C3, as stated: two calls of updateColors in a row with the same spectrum and
  gating switched on emit at most once. It fails when the second call falls on a frame
  that is a multiple of 5: the peak decays from 121 to 120, the renormalized value moves
  from 479 to 483 and the colours change again.
\<close>

theorem same_spectrum_emits_twice:
  "m_isSendDataOnlyIfColorsChanged
     (exampleState\<lparr>m_frames := 3, m_peaks := [121, 121], m_colors := [0xFF1E1E1E, 0xFF1E1E1E],
        m_fft := replicate 1024 (1/64)\<rparr>) \<and>
   updateColors exampleEnv (replicate 1024 (1/256))
     (exampleState\<lparr>m_frames := 3, m_peaks := [121, 121], m_colors := [0xFF1E1E1E, 0xFF1E1E1E],
        m_fft := replicate 1024 (1/64)\<rparr>) =
     Inr ([UpdateLedsColors [0xFF7A7A7A, 0xFF7A7A7A]],
       exampleState\<lparr>m_frames := 4,  m_peaks := [121, 121], m_colors := [0xFF7A7A7A, 0xFF7A7A7A],
         m_fft := replicate 1024 (1/256)\<rparr>) \<and>
   updateColors exampleEnv (replicate 1024 (1/256))
     (exampleState\<lparr>m_frames := 4,  m_peaks := [121, 121], m_colors := [0xFF7A7A7A, 0xFF7A7A7A],
        m_fft := replicate 1024 (1/256)\<rparr>) =
     Inr ([UpdateLedsColors [0xFF7B7B7B, 0xFF7B7B7B]],
       exampleState\<lparr>m_frames := 5,  m_peaks := [120, 120], m_colors := [0xFF7B7B7B, 0xFF7B7B7B],
         m_fft := replicate 1024 (1/256)\<rparr>)"
  using updateColors_quieter updateColors_decay by (simp add: exampleState_def)

text \<open>
  Claim C3, amended. With gating switched on, the second of two calls of updateColors in
  a row with the same spectrum emits nothing and changes only the frame counter, provided
  that the second call does not fall on a frame that is a multiple of 5. With gating
  switched off, every call that completes emits the colour sequence, and a call completes
  for up to 511 channels on a full spectrum buffer.
\<close>

theorem change_gating:
  "(m_isSendDataOnlyIfColorsChanged s \<and> (m_frames s + 2) mod 5 \<noteq> 0 \<and>
      updateColors env spectrum s = Inr (out1, s1) \<longrightarrow>
        updateColors env spectrum s1 = Inr ([], s1\<lparr>m_frames := m_frames s1 + 1\<rparr>)) \<and>
   (\<not> m_isSendDataOnlyIfColorsChanged s \<and> updateColors env spectrum s = Inr (out, s') \<longrightarrow>
        out = [UpdateLedsColors (m_colors s')]) \<and>
   (length (m_peaks s) = length (m_colors s) \<and> length (m_colors s) \<le> 511 \<and>
      fftSize \<le> length spectrum \<longrightarrow> (\<exists>out' s''. updateColors env spectrum s = Inr (out', s'')))"
proof (intro conjI impI)
  assume "m_isSendDataOnlyIfColorsChanged s \<and> (m_frames s + 2) mod 5 \<noteq> 0 \<and>
      updateColors env spectrum s = Inr (out1, s1)"
  then show "updateColors env spectrum s1 = Inr ([], s1\<lparr>m_frames := m_frames s1 + 1\<rparr>)"
    using updateColors_again [of env spectrum s out1 s1] by blast
next
  assume a: "\<not> m_isSendDataOnlyIfColorsChanged s \<and> updateColors env spectrum s = Inr (out, s')"
  then have "updateColors env spectrum s = Inr (out, s')" ..
  then obtain changed where
    "out = (if changed \<or> \<not> m_isSendDataOnlyIfColorsChanged s
            then [UpdateLedsColors (m_colors s')] else [])"
    by (rule updateColorsE)
  with a show "out = [UpdateLedsColors (m_colors s')]" by simp
next
  assume "length (m_peaks s) = length (m_colors s) \<and> length (m_colors s) \<le> 511 \<and>
      fftSize \<le> length spectrum"
  then show "\<exists>out' s''. updateColors env spectrum s = Inr (out', s'')"
    by (intro updateColors_total) simp_all
qed

theorem change_gating_witness:
  "m_isSendDataOnlyIfColorsChanged exampleState \<and> (m_frames exampleState + 2) mod 5 \<noteq> 0 \<and>
   updateColors exampleEnv (replicate 1024 0) exampleState =
     Inr ([UpdateLedsColors [0xFF000000, 0xFF000000]],
          exampleState\<lparr>m_frames := 1, m_colors := [0xFF000000, 0xFF000000]\<rparr>) \<and>
   updateColors exampleEnv (replicate 1024 0)
       (exampleState\<lparr>m_frames := 1, m_colors := [0xFF000000, 0xFF000000]\<rparr>) =
     Inr ([], exampleState\<lparr>m_frames := 2, m_colors := [0xFF000000, 0xFF000000]\<rparr>) \<and>
   \<not> m_isSendDataOnlyIfColorsChanged
       (exampleState\<lparr>m_frames := 1, m_colors := [0xFF000000, 0xFF000000],
          m_isSendDataOnlyIfColorsChanged := False\<rparr>) \<and>
   updateColors exampleEnv (replicate 1024 0)
       (exampleState\<lparr>m_frames := 1, m_colors := [0xFF000000, 0xFF000000],
          m_isSendDataOnlyIfColorsChanged := False\<rparr>) =
     Inr ([UpdateLedsColors [0xFF000000, 0xFF000000]],
          exampleState\<lparr>m_frames := 2, m_colors := [0xFF000000, 0xFF000000],
          m_isSendDataOnlyIfColorsChanged := False\<rparr>) \<and>
   length (m_peaks exampleState) = length (m_colors exampleState) \<and>
   length (m_colors exampleState) \<le> 511 \<and> fftSize \<le> length (replicate 1024 (0::real))"
proof -
  have second: "updateColors exampleEnv (replicate 1024 0)
       (exampleState\<lparr>m_frames := 1, m_colors := [0xFF000000, 0xFF000000],
          m_isSendDataOnlyIfColorsChanged := False\<rparr>) =
     Inr ([UpdateLedsColors [0xFF000000, 0xFF000000]],
          exampleState\<lparr>m_frames := 2, m_colors := [0xFF000000, 0xFF000000],
          m_isSendDataOnlyIfColorsChanged := False\<rparr>)"
    by (simp add: exampleState_def exampleEnv_def evalDefs scaleVal_0 colorDefs)
  show ?thesis
    using change_gating [of exampleState exampleEnv "replicate 1024 0"
        "[UpdateLedsColors [0xFF000000, 0xFF000000]]"
        "exampleState\<lparr>m_frames := 1, m_colors := [0xFF000000, 0xFF000000]\<rparr>"]
      change_gating [of "exampleState\<lparr>m_frames := 1, m_colors := [0xFF000000, 0xFF000000],
          m_isSendDataOnlyIfColorsChanged := False\<rparr>" exampleEnv "replicate 1024 0" _ _
        "[UpdateLedsColors [0xFF000000, 0xFF000000]]"
        "exampleState\<lparr>m_frames := 2, m_colors := [0xFF000000, 0xFF000000],
          m_isSendDataOnlyIfColorsChanged := False\<rparr>"]
      updateColors_silence second
    by (simp add: exampleState_def fftSize_def)
qed

section \<open>Disabled channels\<close>

text \<open>
  Claim C9. The flag that applyFft returns is set exactly when the stored colour of some
  enabled channel changes, and the stored colour of a disabled channel becomes 0. So with
  gating switched on updateColors emits exactly when an enabled channel changes colour: a
  disabled channel whose colour goes from a nonzero value to 0 does not make it emit.
\<close>

theorem changed_only_by_enabled:
  "(applyFft env s = Inr (changed, s') \<longrightarrow>
      changed = (\<exists>j<length (m_colors s). isLedEnabled env j \<and> m_colors s' ! j \<noteq> m_colors s ! j) \<and>
      (\<forall>j<length (m_colors s). \<not> isLedEnabled env j \<longrightarrow> m_colors s' ! j = 0)) \<and>
   (m_isSendDataOnlyIfColorsChanged s \<and> updateColors env spectrum s = Inr (out, s'') \<longrightarrow>
      (out \<noteq> []) =
        (\<exists>j<length (m_colors s). isLedEnabled env j \<and> m_colors s'' ! j \<noteq> m_colors s ! j))"
proof (intro conjI impI)
  assume "applyFft env s = Inr (changed, s')"
  from applyFftLoop_changed [OF this [unfolded applyFft_def]]
  show "changed = (\<exists>j<length (m_colors s). isLedEnabled env j \<and> m_colors s' ! j \<noteq> m_colors s ! j)"
    and "\<forall>j<length (m_colors s). \<not> isLedEnabled env j \<longrightarrow> m_colors s' ! j = 0"
    by simp_all
next
  assume a: "m_isSendDataOnlyIfColorsChanged s \<and> updateColors env spectrum s = Inr (out, s'')"
  let ?s0 = "s\<lparr>m_frames := m_frames s + 1, m_fft := spectrum\<rparr>"
  from a have "updateColors env spectrum s = Inr (out, s'')" ..
  then obtain changed where
    ap: "applyFft env ?s0 = Inr (changed, s'')" and
    out: "out = (if changed \<or> \<not> m_isSendDataOnlyIfColorsChanged s
            then [UpdateLedsColors (m_colors s'')] else [])"
    by (rule updateColorsE)
  from applyFftLoop_changed [OF ap [unfolded applyFft_def]]
  have "changed = (\<exists>j<length (m_colors s). isLedEnabled env j \<and> m_colors s'' ! j \<noteq> m_colors s ! j)"
    by simp
  moreover have "(out \<noteq> []) = changed" using out a by simp
  ultimately show "(out \<noteq> []) =
        (\<exists>j<length (m_colors s). isLedEnabled env j \<and> m_colors s'' ! j \<noteq> m_colors s ! j)"
    by simp
qed

theorem changed_only_by_enabled_witness:
  "applyFft (exampleEnv\<lparr>isLedEnabled := (\<lambda>i. i = 0)\<rparr>)
       (exampleState\<lparr>m_frames := 2, m_colors := [0xFF000000, 0xFF000000]\<rparr>) =
     Inr (False, exampleState\<lparr>m_frames := 2, m_colors := [0xFF000000, 0]\<rparr>) \<and>
   m_isSendDataOnlyIfColorsChanged
       (exampleState\<lparr>m_frames := 1, m_colors := [0xFF000000, 0xFF000000]\<rparr>) \<and>
   updateColors (exampleEnv\<lparr>isLedEnabled := (\<lambda>i. i = 0)\<rparr>) (replicate 1024 0)
       (exampleState\<lparr>m_frames := 1, m_colors := [0xFF000000, 0xFF000000]\<rparr>) =
     Inr ([], exampleState\<lparr>m_frames := 2, m_colors := [0xFF000000, 0]\<rparr>) \<and>
   \<not> isLedEnabled (exampleEnv\<lparr>isLedEnabled := (\<lambda>i. i = 0)\<rparr>) 1 \<and>
   m_colors (exampleState\<lparr>m_frames := 2, m_colors := [0xFF000000, 0]\<rparr>) ! 1 = 0 \<and>
   m_colors (exampleState\<lparr>m_frames := 1, m_colors := [0xFF000000, 0xFF000000]\<rparr>) ! 1 = 0xFF000000"
  using changed_only_by_enabled [of "exampleEnv\<lparr>isLedEnabled := (\<lambda>i. i = 0)\<rparr>"
      "exampleState\<lparr>m_frames := 2, m_colors := [0xFF000000, 0xFF000000]\<rparr>" False
      "exampleState\<lparr>m_frames := 2, m_colors := [0xFF000000, 0]\<rparr>"]
    changed_only_by_enabled [of "exampleEnv\<lparr>isLedEnabled := (\<lambda>i. i = 0)\<rparr>"
      "exampleState\<lparr>m_frames := 1, m_colors := [0xFF000000, 0xFF000000]\<rparr>" _ _
      "replicate 1024 0" "[]" "exampleState\<lparr>m_frames := 2, m_colors := [0xFF000000, 0]\<rparr>"]
    applyFft_disabled updateColors_disabled
  by (simp add: exampleState_def exampleEnv_def)

section \<open>Leaving liquid mode\<close>

text \<open>
  Claim C7, as stated: switching from liquid to gradient mode while the engine runs forces
  one emission even if the colours are unchanged. It fails with gating switched on: after
  a silent frame in liquid mode every colour is black, the recomputation in gradient mode
  from black gives black again, and nothing is emitted.
\<close>

theorem liquid_to_gradient_without_emission:
  "m_isEnabled (liquidState\<lparr>m_frames := 1, m_colors := [0xFF000000, 0xFF000000]\<rparr>) \<and>
   m_isLiquidMode (liquidState\<lparr>m_frames := 1, m_colors := [0xFF000000, 0xFF000000]\<rparr>) \<and>
   updateColors exampleEnv (replicate 1024 0) liquidState =
     Inr ([UpdateLedsColors [0xFF000000, 0xFF000000]],
          liquidState\<lparr>m_frames := 1, m_colors := [0xFF000000, 0xFF000000]\<rparr>) \<and>
   setLiquidMode exampleEnv (replicate 1024 0) False
       (liquidState\<lparr>m_frames := 1, m_colors := [0xFF000000, 0xFF000000]\<rparr>) =
     Inr ([], liquidState\<lparr>m_isLiquidMode := False,
            m_generator := \<lparr>running = False, speed = 0, current = \<lparr>red = 255, green = 0, blue = 0\<rparr>\<rparr>,
            m_frames := 2, m_colors := [0xFF000000, 0xFF000000]\<rparr>)"
  by (simp add: liquidState_def setLiquidMode_def generatorStop_def exampleState_def
        exampleEnv_def evalDefs scaleVal_0 colorDefs)

text \<open>
  Claim C7, amended. Switching from liquid to gradient mode while the engine is enabled
  stops the generator and runs updateColors once: the frame is counted, and the colour
  sequence is emitted once if gating is switched off or the colour of an enabled channel
  changed, and not at all otherwise. The call completes for up to 511 channels on a full
  spectrum buffer.
\<close>

theorem liquid_to_gradient:
  "(m_isEnabled s \<and> setLiquidMode env spectrum False s = Inr (out, s') \<longrightarrow>
      \<not> running (m_generator s') \<and> \<not> m_isLiquidMode s' \<and> m_frames s' = m_frames s + 1 \<and>
      out = (if \<not> m_isSendDataOnlyIfColorsChanged s \<or>
                (\<exists>j<length (m_colors s). isLedEnabled env j \<and> m_colors s' ! j \<noteq> m_colors s ! j)
             then [UpdateLedsColors (m_colors s')] else [])) \<and>
   (m_isEnabled s \<and> length (m_peaks s) = length (m_colors s) \<and> length (m_colors s) \<le> 511 \<and>
      fftSize \<le> length spectrum \<longrightarrow>
        (\<exists>out' s''. setLiquidMode env spectrum False s = Inr (out', s'')))"
proof (intro conjI impI)
  let ?s0 = "s\<lparr>m_isLiquidMode := False, m_generator := generatorStop (m_generator s)\<rparr>"
  have eq: "m_isEnabled s \<Longrightarrow> setLiquidMode env spectrum False s = updateColors env spectrum ?s0"
    by (simp add: setLiquidMode_def Let_def)
  {
    assume a: "m_isEnabled s \<and> setLiquidMode env spectrum False s = Inr (out, s')"
    then have uc: "updateColors env spectrum ?s0 = Inr (out, s')" using eq by simp
    then obtain changed ps cs where
      ap: "applyFft env (?s0\<lparr>m_frames := m_frames ?s0 + 1, m_fft := spectrum\<rparr>) = Inr (changed, s')" and
      out: "out = (if changed \<or> \<not> m_isSendDataOnlyIfColorsChanged ?s0
            then [UpdateLedsColors (m_colors s')] else [])" and
      s': "s' = ?s0\<lparr>m_frames := m_frames ?s0 + 1, m_fft := spectrum, m_peaks := ps, m_colors := cs\<rparr>"
      by (rule updateColorsE)
    show "\<not> running (m_generator s')" using s' by (simp add: generatorStop_def)
    show "\<not> m_isLiquidMode s'" using s' by simp
    show "m_frames s' = m_frames s + 1" using s' by simp
    from applyFftLoop_changed [OF ap [unfolded applyFft_def]]
    have "changed = (\<exists>j<length (m_colors s). isLedEnabled env j \<and> m_colors s' ! j \<noteq> m_colors s ! j)"
      by simp
    then show "out = (if \<not> m_isSendDataOnlyIfColorsChanged s \<or>
                (\<exists>j<length (m_colors s). isLedEnabled env j \<and> m_colors s' ! j \<noteq> m_colors s ! j)
             then [UpdateLedsColors (m_colors s')] else [])"
      using out by auto
  }
  assume b: "m_isEnabled s \<and> length (m_peaks s) = length (m_colors s) \<and> length (m_colors s) \<le> 511 \<and>
      fftSize \<le> length spectrum"
  then have "\<exists>out' s''. updateColors env spectrum ?s0 = Inr (out', s'')"
    by (intro updateColors_total) simp_all
  then show "\<exists>out' s''. setLiquidMode env spectrum False s = Inr (out', s'')"
    using eq b by simp
qed

theorem liquid_to_gradient_witness:
  "m_isEnabled liquidState \<and>
   setLiquidMode exampleEnv (replicate 1024 0) False liquidState =
     Inr ([UpdateLedsColors [0xFF000000, 0xFF000000]],
        liquidState\<lparr>m_isLiquidMode := False,
            m_generator := \<lparr>running = False, speed = 0, current = \<lparr>red = 255, green = 0, blue = 0\<rparr>\<rparr>,
            m_frames := 1, m_colors := [0xFF000000, 0xFF000000]\<rparr>) \<and>
   length (m_peaks liquidState) = length (m_colors liquidState) \<and>
   length (m_colors liquidState) \<le> 511 \<and> fftSize \<le> length (replicate 1024 (0::real)) \<and>
   m_colors liquidState ! 0 = 0"
proof -
  have run: "setLiquidMode exampleEnv (replicate 1024 0) False liquidState =
     Inr ([UpdateLedsColors [0xFF000000, 0xFF000000]],
        liquidState\<lparr>m_isLiquidMode := False,
            m_generator := \<lparr>running = False, speed = 0, current = \<lparr>red = 255, green = 0, blue = 0\<rparr>\<rparr>,
            m_frames := 1, m_colors := [0xFF000000, 0xFF000000]\<rparr>)"
    by (simp add: liquidState_def setLiquidMode_def generatorStop_def exampleState_def
        exampleEnv_def evalDefs scaleVal_0 colorDefs)
  show ?thesis
    using liquid_to_gradient [of liquidState exampleEnv "replicate 1024 0"
        "[UpdateLedsColors [0xFF000000, 0xFF000000]]"
        "liquidState\<lparr>m_isLiquidMode := False,
            m_generator := \<lparr>running = False, speed = 0, current = \<lparr>red = 255, green = 0, blue = 0\<rparr>\<rparr>,
            m_frames := 1, m_colors := [0xFF000000, 0xFF000000]\<rparr>"] run
    by (simp add: liquidState_def exampleState_def fftSize_def)
qed

end
